theory Spec2Isabelle
  imports Main "HOL-Library.Word"
begin

unbundle bit_operations_syntax

section \<open>The WAVE loader of wave_loader.hpp\<close>

text \<open>
  A shallow embedding of \<^verbatim>\<open>src/include/wave_loader.hpp\<close>: the \<^verbatim>\<open>WaveFile\<close> struct,
  the host byte order probe \<^verbatim>\<open>is_big_endian\<close>, the decoder \<^verbatim>\<open>convert_to_int\<close> and the
  parser \<^verbatim>\<open>LoadeWaveFile\<close>.

  A \<^verbatim>\<open>char\<close> is a byte, \<^verbatim>\<open>short\<close> is a 16-bit and \<^verbatim>\<open>int\<close> a 32-bit two's complement
  word (\<open>sint\<close> reads the signed value). What the C++ leaves to the machine it runs on
  is a parameter of the model, collected in the record \<open>host\<close>.
\<close>

type_synonym byte = "8 word"
type_synonym c_short = "16 word"
type_synonym c_int = "32 word"

subsection \<open>The host\<close>

text \<open>
  \<^item> \<open>big_endian\<close>: the byte order in which the host stores an \<^verbatim>\<open>int\<close>;
  \<^item> \<open>can_alloc n\<close>: whether \<^verbatim>\<open>new char[n]\<close> finds the memory for \<open>n\<close> bytes;
  \<^item> \<open>stack_garbage\<close>: the four bytes that the uninitialised local \<^verbatim>\<open>char buffer[4]\<close>
    of \<^verbatim>\<open>LoadeWaveFile\<close> happens to hold on entry.
\<close>

record host =
  big_endian :: bool
  can_alloc :: "nat \<Rightarrow> bool"
  stack_garbage :: "byte \<times> byte \<times> byte \<times> byte"

subsection \<open>An int in memory\<close>

text \<open>
  The decoder writes the object representation of an \<^verbatim>\<open>int\<close> through a \<^verbatim>\<open>char*\<close>, so
  the model keeps the four bytes of the \<^verbatim>\<open>int\<close> as a list, lowest address first, and
  the host's byte order says which value they stand for. \<open>mem_to_int\<close> is only
  applied to the four bytes of an \<^verbatim>\<open>int\<close>.
\<close>

definition int_to_mem :: "bool \<Rightarrow> c_int \<Rightarrow> byte list" where
  "int_to_mem be v =
     (let le = [ucast v, ucast (drop_bit 8 v), ucast (drop_bit 16 v), ucast (drop_bit 24 v)]
      in if be then rev le else le)"

definition mem_to_int :: "bool \<Rightarrow> byte list \<Rightarrow> c_int" where
  "mem_to_int be m =
     (let le = (if be then rev m else m)
      in of_nat (unat (le ! 0) + 256 * unat (le ! 1) +
                 65536 * unat (le ! 2) + 16777216 * unat (le ! 3)))"

text \<open>Lines 91-95: \<^verbatim>\<open>int a = 1; return !((char*)&a)[0];\<close>\<close>

definition is_big_endian :: "bool \<Rightarrow> c_int" where
  "is_big_endian be = (let a = int_to_mem be 1 in if a ! 0 = 0 then 1 else 0)"

subsection \<open>convert_to_int\<close>

text \<open>
  Lines 102-105 and 109-112: the two \<^verbatim>\<open>for\<close> loops, with the loop counter \<open>i\<close> and
  the bytes of \<open>a\<close> as their state. An index outside \<open>buffer\<close> or outside the four
  bytes of \<open>a\<close> is undefined behaviour in C++; the model stops with \<open>None\<close> there.
\<close>

function copy_in_place :: "byte list \<Rightarrow> int \<Rightarrow> int \<Rightarrow> byte list \<Rightarrow> byte list option" where
  "copy_in_place buffer len i a =
     (if i < len then
        (if 0 \<le> i \<and> nat i < length buffer \<and> nat i < length a
         then copy_in_place buffer len (i + 1) (a[nat i := buffer ! nat i])
         else None)
      else Some a)"
  by pat_completeness auto
termination
  by (relation "measure (\<lambda>(buffer, len, i, a). nat (len - i))") auto

function copy_reversed :: "byte list \<Rightarrow> int \<Rightarrow> int \<Rightarrow> byte list \<Rightarrow> byte list option" where
  "copy_reversed buffer len i a =
     (if i < len then
        (if 0 \<le> i \<and> nat i < length buffer \<and> 0 \<le> 3 - i \<and> nat (3 - i) < length a
         then copy_reversed buffer len (i + 1) (a[nat (3 - i) := buffer ! nat i])
         else None)
      else Some a)"
  by pat_completeness auto
termination
  by (relation "measure (\<lambda>(buffer, len, i, a). nat (len - i))") auto

text \<open>Lines 97-115. \<open>len\<close> is the C++ \<^verbatim>\<open>int len\<close>.\<close>

definition convert_to_int :: "bool \<Rightarrow> byte list \<Rightarrow> int \<Rightarrow> c_int option" where
  "convert_to_int be buffer len =
     (let a = int_to_mem be 0
      in map_option (mem_to_int be)
           (if is_big_endian be = 0
            then copy_in_place buffer len 0 a
            else copy_reversed buffer len 0 a))"

subsection \<open>The WaveFile struct\<close>

text \<open>
  Lines 20-89. \<open>data\<close> is the \<^verbatim>\<open>char*\<close> payload buffer: one cell for each \<^verbatim>\<open>char\<close> of
  the array it points to, \<open>None\<close> for a cell that \<^verbatim>\<open>new char[n]\<close> left uninitialised
  and nothing has written since. The null pointer of a fresh struct is the empty list;
  line 170 replaces it before the struct is returned.
\<close>

record WaveFile =
  chunk_id :: c_int
  chunk_size :: c_int
  format :: c_int
  subchunk_1_id :: c_int
  subchunk_1_size :: c_int
  audio_format :: c_short
  num_channels :: c_short
  sample_rate :: c_int
  byte_rate :: c_int
  block_align :: c_short
  bits_per_sample :: c_short
  subchunk_2_id :: c_int
  subchunk_2_size :: c_int
  data :: "byte option list"

text \<open>
  Line 124: \<^verbatim>\<open>new WaveFile()\<close> value-initialises the struct, every member zero. The
  allocation of the struct itself is taken to succeed.
\<close>

definition new_WaveFile :: WaveFile where
  "new_WaveFile =
     \<lparr>chunk_id = 0, chunk_size = 0, format = 0, subchunk_1_id = 0, subchunk_1_size = 0,
      audio_format = 0, num_channels = 0, sample_rate = 0, byte_rate = 0, block_align = 0,
      bits_per_sample = 0, subchunk_2_id = 0, subchunk_2_size = 0, data = []\<rparr>"

subsection \<open>The library calls\<close>

text \<open>
  \<^verbatim>\<open>std::ifstream\<close>: the bytes not yet extracted and whether the stream is still
  \<^verbatim>\<open>good()\<close>. A file that cannot be opened gives a stream that is not good. The model
  is of a host whose text mode does not translate bytes (POSIX).
\<close>

record istream =
  pending :: "byte list"
  good :: bool

definition ifstream_open :: "byte list option \<Rightarrow> istream" where
  "ifstream_open f =
     (case f of None \<Rightarrow> \<lparr>pending = [], good = False\<rparr>
              | Some bytes \<Rightarrow> \<lparr>pending = bytes, good = True\<rparr>)"

text \<open>
  \<^verbatim>\<open>istream::read(s, n)\<close> for \<open>n \<ge> 0\<close>: on a stream that is not good it extracts
  nothing; otherwise it extracts \<open>n\<close> bytes, or all the bytes left when they are fewer,
  and then sets \<^verbatim>\<open>eofbit | failbit\<close>. The result is the stream after the call and the
  bytes extracted, which the caller stores at the start of \<open>s\<close>.
\<close>

definition istream_read :: "istream \<Rightarrow> nat \<Rightarrow> istream \<times> byte list" where
  "istream_read f n =
     (if \<not> good f then (f, [])
      else let got = take n (pending f)
           in (\<lparr>pending = drop n (pending f), good = (length got = n)\<rparr>, got))"

definition store :: "'a list \<Rightarrow> 'a list \<Rightarrow> 'a list" where
  "store got arr = got @ drop (length got) arr"

text \<open>
  \<^verbatim>\<open>strncmp(s1, s2, n)\<close> on unsigned bytes; the end of a list is the terminating NUL
  of a C string.
\<close>

fun strncmp :: "byte list \<Rightarrow> byte list \<Rightarrow> nat \<Rightarrow> int" where
  "strncmp s1 s2 0 = 0"
| "strncmp s1 s2 (Suc n) =
     (let c1 = (case s1 of [] \<Rightarrow> 0 | c # _ \<Rightarrow> c);
          c2 = (case s2 of [] \<Rightarrow> 0 | c # _ \<Rightarrow> c)
      in if c1 \<noteq> c2 then uint c1 - uint c2
         else if c1 = 0 then 0
         else strncmp (tl s1) (tl s2) n)"

definition c_str :: "string \<Rightarrow> byte list" where
  "c_str s = map of_char s"

text \<open>
  What leaves \<^verbatim>\<open>LoadeWaveFile\<close> other than by \<^verbatim>\<open>return\<close>: the two exceptions of
  \<^verbatim>\<open>new char[n]\<close>, and undefined behaviour of the decoder.
\<close>

datatype fault = bad_array_new_length | bad_alloc | undefined_behaviour

definition new_char_array :: "host \<Rightarrow> int \<Rightarrow> fault + byte option list" where
  "new_char_array h n =
     (if n < 0 then Inl bad_array_new_length
      else if \<not> can_alloc h (nat n) then Inl bad_alloc
      else Inr (replicate (nat n) None))"

subsection \<open>LoadeWaveFile\<close>

text \<open>
  The locals of the function while it runs: the stream \<open>file'\<close> (the source's
  \<^verbatim>\<open>file\<close>), the \<^verbatim>\<open>char buffer[4]\<close>, the struct behind \<open>wave_file\<close>, and what has
  been printed to standard output.
  A statement either completes with the locals updated, or throws; what was printed
  survives the throw.
\<close>

record frame =
  file' :: istream
  buffer :: "byte list"
  wave_file :: WaveFile
  console :: string

type_synonym stmt = "frame \<Rightarrow> (fault \<times> string) + frame"

fun exec :: "stmt list \<Rightarrow> stmt" where
  "exec [] s = Inr s"
| "exec (c # cs) s = (case c s of Inl e \<Rightarrow> Inl e | Inr s' \<Rightarrow> exec cs s')"

text \<open>\<^verbatim>\<open>file.read(buffer, n);\<close>\<close>

definition read_buffer :: "nat \<Rightarrow> stmt" where
  "read_buffer n s =
     (let (f, got) = istream_read (file' s) n
      in Inr (s\<lparr>file' := f, buffer := store got (buffer s)\<rparr>))"

text \<open>Lines 129-132.\<close>

definition check_riff :: stmt where
  "check_riff s =
     (if strncmp (buffer s) (c_str ''RIFF'') 4 \<noteq> 0
      then Inr (s\<lparr>console := console s @ ''This is not valid WAV file!''\<rparr>)
      else Inr s)"

text \<open>
  \<^verbatim>\<open>wave_file->field = convert_to_int(buffer, len);\<close> for an \<^verbatim>\<open>int\<close> field, and for a
  \<^verbatim>\<open>short\<close> field, where the assignment keeps the low 16 bits.
\<close>

definition assign_int :: "host \<Rightarrow> (c_int \<Rightarrow> WaveFile \<Rightarrow> WaveFile) \<Rightarrow> int \<Rightarrow> stmt" where
  "assign_int h field len s =
     (case convert_to_int (big_endian h) (buffer s) len of
        None \<Rightarrow> Inl (undefined_behaviour, console s)
      | Some v \<Rightarrow> Inr (s\<lparr>wave_file := field v (wave_file s)\<rparr>))"

definition assign_short :: "host \<Rightarrow> (c_short \<Rightarrow> WaveFile \<Rightarrow> WaveFile) \<Rightarrow> int \<Rightarrow> stmt" where
  "assign_short h field len s =
     (case convert_to_int (big_endian h) (buffer s) len of
        None \<Rightarrow> Inl (undefined_behaviour, console s)
      | Some v \<Rightarrow> Inr (s\<lparr>wave_file := field (ucast v) (wave_file s)\<rparr>))"

text \<open>
  Lines 156-158 and 161: the extension length is decoded, a buffer of that length is
  allocated, read into and released (line 161 releases with \<^verbatim>\<open>delete\<close> what
  \<^verbatim>\<open>new[]\<close> allocated; the model takes it for the release of the buffer). Nothing but
  the stream keeps a trace of it.
\<close>

definition skip_extra_data :: "host \<Rightarrow> stmt" where
  "skip_extra_data h s =
     (case convert_to_int (big_endian h) (buffer s) 4 of
        None \<Rightarrow> Inl (undefined_behaviour, console s)
      | Some extra_size \<Rightarrow>
          (case new_char_array h (sint extra_size) of
             Inl e \<Rightarrow> Inl (e, console s)
           | Inr extra_data \<Rightarrow>
               (let (f, got) = istream_read (file' s) (nat (sint extra_size))
                in Inr (s\<lparr>file' := f\<rparr>))))"

text \<open>
  Lines 153-166, the \<^verbatim>\<open>if\<close> on the four bytes that line 152 has read ahead into the
  buffer.
\<close>

definition read_subchunk_2_id :: "host \<Rightarrow> stmt" where
  "read_subchunk_2_id h s =
     (if strncmp (buffer s) (c_str ''data'') 4 \<noteq> 0
      then exec [read_buffer 4,
                 skip_extra_data h,
                 read_buffer 4,
                 assign_int h (\<lambda>v w. w\<lparr>subchunk_2_id := v\<rparr>) 4] s
      else assign_int h (\<lambda>v w. w\<lparr>subchunk_2_id := v\<rparr>) 4 s)"

text \<open>Line 170: \<^verbatim>\<open>wave_file->data = new char[wave_file->subchunk_2_size];\<close>\<close>

definition alloc_data :: "host \<Rightarrow> stmt" where
  "alloc_data h s =
     (case new_char_array h (sint (subchunk_2_size (wave_file s))) of
        Inl e \<Rightarrow> Inl (e, console s)
      | Inr arr \<Rightarrow> Inr (s\<lparr>wave_file := (wave_file s)\<lparr>data := arr\<rparr>\<rparr>))"

text \<open>Line 171: \<^verbatim>\<open>file.read(wave_file->data, wave_file->subchunk_2_size);\<close>\<close>

definition read_data :: stmt where
  "read_data s =
     (let w = wave_file s;
          (f, got) = istream_read (file' s) (nat (sint (subchunk_2_size w)))
      in Inr (s\<lparr>file' := f, wave_file := w\<lparr>data := store (map Some got) (data w)\<rparr>\<rparr>))"

text \<open>Lines 124-127: the locals on entry.\<close>

definition entry :: "host \<Rightarrow> byte list option \<Rightarrow> frame" where
  "entry h f =
     (let (g0, g1, g2, g3) = stack_garbage h
      in \<lparr>file' = ifstream_open f, buffer = [g0, g1, g2, g3],
          wave_file = new_WaveFile, console = []\<rparr>)"

text \<open>Lines 128-137: the RIFF header.\<close>

definition read_riff_header :: "host \<Rightarrow> stmt" where
  "read_riff_header h =
     exec [read_buffer 4,
           check_riff,
           assign_int h (\<lambda>v w. w\<lparr>chunk_id := v\<rparr>) 4,
           read_buffer 4,
           assign_int h (\<lambda>v w. w\<lparr>chunk_size := v\<rparr>) 4,
           read_buffer 4,
           assign_int h (\<lambda>v w. w\<lparr>format := v\<rparr>) 4]"

text \<open>Lines 138-151: the fields of the format subchunk.\<close>

definition read_fmt_subchunk :: "host \<Rightarrow> stmt" where
  "read_fmt_subchunk h =
     exec [read_buffer 4,
           assign_int h (\<lambda>v w. w\<lparr>subchunk_1_id := v\<rparr>) 4,
           read_buffer 2,
           assign_short h (\<lambda>v w. w\<lparr>audio_format := v\<rparr>) 2,
           read_buffer 2,
           assign_short h (\<lambda>v w. w\<lparr>num_channels := v\<rparr>) 2,
           read_buffer 4,
           assign_int h (\<lambda>v w. w\<lparr>sample_rate := v\<rparr>) 4,
           read_buffer 4,
           assign_int h (\<lambda>v w. w\<lparr>byte_rate := v\<rparr>) 4,
           read_buffer 2,
           assign_short h (\<lambda>v w. w\<lparr>block_align := v\<rparr>) 2,
           read_buffer 2,
           assign_short h (\<lambda>v w. w\<lparr>bits_per_sample := v\<rparr>) 2]"

text \<open>Lines 168-171: the payload.\<close>

definition read_payload :: "host \<Rightarrow> stmt" where
  "read_payload h =
     exec [read_buffer 4,
           assign_int h (\<lambda>v w. w\<lparr>subchunk_2_size := v\<rparr>) 4,
           alloc_data h,
           read_data]"

text \<open>
  Lines 122-174. The argument is the content of the file at \<^verbatim>\<open>file_path\<close>, \<open>None\<close>
  when it cannot be opened. The result is the struct returned, or the exception that
  left the function, and what was printed. Line 152, between the format subchunk and
  the \<^verbatim>\<open>if\<close>, reads four bytes ahead.
\<close>

definition LoadeWaveFile :: "host \<Rightarrow> byte list option \<Rightarrow> (fault + WaveFile) \<times> string" where
  "LoadeWaveFile h f =
     (case exec [read_riff_header h, read_fmt_subchunk h, read_buffer 4,
                 read_subchunk_2_id h, read_payload h] (entry h f) of
        Inl (e, out) \<Rightarrow> (Inl e, out)
      | Inr s \<Rightarrow> (Inr (wave_file s), console s))"

subsection \<open>Reference notions of the specification\<close>

text \<open>
  The little-endian reading of a byte span, unsigned and as a two's complement number
  of as many bits as the span has.
\<close>

fun le_unsigned :: "byte list \<Rightarrow> int" where
  "le_unsigned [] = 0"
| "le_unsigned (b # bs) = uint b + 256 * le_unsigned bs"

definition le_signed :: "byte list \<Rightarrow> int" where
  "le_signed bs =
     (let n = 8 * length bs; u = le_unsigned bs
      in if u < 2 ^ (n - 1) then u else u - 2 ^ n)"

text \<open>The bytes of a 16-bit and of a 32-bit field in a file, lowest byte first.\<close>

definition le_bytes_16 :: "c_short \<Rightarrow> byte list" where
  "le_bytes_16 v = [ucast v, ucast (drop_bit 8 v)]"

definition le_bytes_32 :: "c_int \<Rightarrow> byte list" where
  "le_bytes_32 v = [ucast v, ucast (drop_bit 8 v), ucast (drop_bit 16 v), ucast (drop_bit 24 v)]"

text \<open>
  The binary layout of section 6 of the specification, as a serialiser of the record.
  The 44 bytes of the header: ChunkID, ChunkSize, Format, Subchunk1ID, Subchunk1Size,
  AudioFormat, NumChannels, SampleRate, ByteRate, BlockAlign, BitsPerSample, Subchunk2ID
  and Subchunk2Size, with no extension; then the payload. A payload with an
  uninitialised cell has no serialisation.
\<close>

definition serialize_header :: "WaveFile \<Rightarrow> byte list" where
  "serialize_header w =
     le_bytes_32 (chunk_id w) @ le_bytes_32 (chunk_size w) @ le_bytes_32 (format w) @
     le_bytes_32 (subchunk_1_id w) @ le_bytes_32 (subchunk_1_size w) @
     le_bytes_16 (audio_format w) @ le_bytes_16 (num_channels w) @
     le_bytes_32 (sample_rate w) @ le_bytes_32 (byte_rate w) @
     le_bytes_16 (block_align w) @ le_bytes_16 (bits_per_sample w) @
     le_bytes_32 (subchunk_2_id w) @ le_bytes_32 (subchunk_2_size w)"

definition serialize_layout :: "WaveFile \<Rightarrow> byte list option" where
  "serialize_layout w = map_option (\<lambda>payload. serialize_header w @ payload) (those (data w))"

subsection \<open>Example inputs\<close>

text \<open>
  A little-endian host on which every allocation succeeds and the stack holds zeros,
  and a big-endian one with a small heap and other bytes on the stack.
\<close>

definition le_host :: host where
  "le_host = \<lparr>big_endian = False, can_alloc = (\<lambda>n. True), stack_garbage = (0, 0, 0, 0)\<rparr>"

definition be_host :: host where
  "be_host = \<lparr>big_endian = True, can_alloc = (\<lambda>n. n < 65536),
               stack_garbage = (0x12, 0x34, 0x56, 0x78)\<rparr>"

text \<open>
  The minimal mono 8-bit PCM file of the specification, 48 bytes in the layout of
  section 6.
\<close>

definition minimal_pcm :: "byte list" where
  "minimal_pcm =
     c_str ''RIFF'' @ le_bytes_32 44 @ c_str ''WAVE'' @
     c_str ''fmt '' @ le_bytes_32 16 @ le_bytes_16 1 @ le_bytes_16 1 @
     le_bytes_32 8000 @ le_bytes_32 8000 @ le_bytes_16 1 @ le_bytes_16 8 @
     c_str ''data'' @ le_bytes_32 4 @ [0x01, 0x02, 0x03, 0x04]"

text \<open>
  The 32 bytes that the parser takes for the fixed fields: the same fields without
  Subchunk1Size.
\<close>

definition fixed_32 :: "string \<Rightarrow> byte list" where
  "fixed_32 magic =
     c_str magic @ le_bytes_32 40 @ c_str ''WAVE'' @ c_str ''fmt '' @
     le_bytes_16 1 @ le_bytes_16 1 @ le_bytes_32 8000 @ le_bytes_32 8000 @
     le_bytes_16 1 @ le_bytes_16 8"

text \<open>
  Files in the layout that the parser reads: the 32 bytes of fixed fields, then
  \<^item> \<open>plain_file\<close>: "data", the length 4 and four bytes of payload;
  \<^item> \<open>rifx_file\<close>: the same after the magic "RIFX";
  \<^item> \<open>short_payload\<close>: "data", the length 8 and only three bytes of payload;
  \<^item> \<open>extended_file\<close>: an extension chunk "LIST" of length 2 with the body
    0x00 0x00, then "data", the length 8 and eight bytes of payload;
  \<^item> \<open>negative_extension\<close>: an extension chunk "LIST" whose length reads -2, then
    two bytes, "data", the length 4 and four bytes of payload;
  and \<open>cut_after_fmt\<close>, the 16 bytes of a file that ends right after the "fmt " tag.
\<close>

definition plain_file :: "byte list" where
  "plain_file = fixed_32 ''RIFF'' @ c_str ''data'' @ le_bytes_32 4 @ [0x01, 0x02, 0x03, 0x04]"

definition rifx_file :: "byte list" where
  "rifx_file = fixed_32 ''RIFX'' @ c_str ''data'' @ le_bytes_32 4 @ [0x01, 0x02, 0x03, 0x04]"

definition short_payload :: "byte list" where
  "short_payload = fixed_32 ''RIFF'' @ c_str ''data'' @ le_bytes_32 8 @ [0x01, 0x02, 0x03]"



definition cut_after_fmt :: "byte list" where
  "cut_after_fmt = c_str ''RIFF'' @ le_bytes_32 40 @ c_str ''WAVE'' @ c_str ''fmt ''"

subsection \<open>What every statement of the parser maintains\<close>

text \<open>
  From a frame whose buffer has its four bytes, a statement of \<^verbatim>\<open>LoadeWaveFile\<close> that
  completes leaves a frame whose buffer has four bytes, whose \<open>subchunk_1_size\<close> is
  the same, whose stream holds a final part of the bytes it held, and whose stream is
  good only if it was.
\<close>

definition carried :: "frame \<Rightarrow> frame \<Rightarrow> bool" where
  "carried s t =
     (length (buffer s) = 4 \<longrightarrow>
        length (buffer t) = 4 \<and>
        subchunk_1_size (wave_file t) = subchunk_1_size (wave_file s) \<and>
        (\<exists>pre. pending (file' s) = pre @ pending (file' t)) \<and>
        (good (file' t) \<longrightarrow> good (file' s)))"

text \<open>
  A statement takes \<open>n\<close> bytes: when it completes, the stream is good afterwards exactly
  if it was good before and held \<open>n\<close> bytes, and has then moved past them.
\<close>

definition takes :: "stmt \<Rightarrow> nat \<Rightarrow> bool" where
  "takes c n =
     (\<forall>t t'. c t = Inr t' \<longrightarrow>
        good (file' t') = (good (file' t) \<and> n \<le> length (pending (file' t))) \<and>
        (good (file' t') \<longrightarrow> pending (file' t') = drop n (pending (file' t))))"

section \<open>The decoder\<close>

lemma is_big_endian_iff: "(is_big_endian be = 0) = (\<not> be)"
  by (cases be) (simp_all add: is_big_endian_def int_to_mem_def)

lemma convert_to_int_2:
  "convert_to_int be (b0 # b1 # bs) 2 = Some (word_of_int (le_unsigned [b0, b1]))"
  by (cases be) (simp_all add: convert_to_int_def is_big_endian_iff int_to_mem_def mem_to_int_def)

lemma convert_to_int_4:
  "convert_to_int be (b0 # b1 # b2 # b3 # bs) 4 = Some (word_of_int (le_unsigned [b0, b1, b2, b3]))"
  by (cases be) (simp_all add: convert_to_int_def is_big_endian_iff int_to_mem_def mem_to_int_def)

lemma le_unsigned_bounds: "0 \<le> le_unsigned bs \<and> le_unsigned bs < 256 ^ length bs"
proof (induction bs)
  case Nil
  show ?case by simp
next
  case (Cons b bs)
  have "0 \<le> uint b" "uint b < 256" using uint_bounded [of b] by simp_all
  with Cons show ?case by simp
qed

lemma sint_word_of_int_32:
  "sint (word_of_int x :: c_int) = (x + 2147483648) mod 4294967296 - 2147483648"
  by (simp add: sint_sbintrunc' signed_take_bit_eq_take_bit_shift take_bit_eq_mod)

lemma sint_word_of_int_16:
  "sint (word_of_int x :: c_short) = (x + 32768) mod 65536 - 32768"
  by (simp add: sint_sbintrunc' signed_take_bit_eq_take_bit_shift take_bit_eq_mod)

lemma signed_32: 
  assumes "0 \<le> x" "x < 4294967296"
  shows "sint (word_of_int x :: c_int) = (if x < 2147483648 then x else x - 4294967296)"
proof (cases "x < 2147483648")
  case True
  with assms show ?thesis
    by (simp add: sint_word_of_int_32)
next
  case False
  have "x + 2147483648 = x - 2147483648 + 4294967296"
    by simp
  then have "(x + 2147483648) mod 4294967296 = (x - 2147483648 + 4294967296) mod 4294967296"
    by (rule arg_cong)
  also have "\<dots> = (x - 2147483648) mod 4294967296"
    by (simp only: mod_add_self2)
  also have "\<dots> = x - 2147483648"
    using assms False by simp
  finally show ?thesis
    using False by (simp add: sint_word_of_int_32)
qed

lemma signed_16: 
  assumes "0 \<le> x" "x < 65536"
  shows "sint (word_of_int x :: c_short) = (if x < 32768 then x else x - 65536)"
proof (cases "x < 32768")
  case True
  with assms show ?thesis
    by (simp add: sint_word_of_int_16)
next
  case False
  have "x + 32768 = x - 32768 + 65536"
    by simp
  then have "(x + 32768) mod 65536 = (x - 32768 + 65536) mod 65536"
    by (rule arg_cong)
  also have "\<dots> = (x - 32768) mod 65536"
    by (simp only: mod_add_self2)
  also have "\<dots> = x - 32768"
    using assms False by simp
  finally show ?thesis
    using False by (simp add: sint_word_of_int_16)
qed

lemma sint_le_4: "sint (word_of_int (le_unsigned [b0, b1, b2, b3]) :: c_int) = le_signed [b0, b1, b2, b3]"
proof -
  have "0 \<le> le_unsigned [b0, b1, b2, b3] \<and> le_unsigned [b0, b1, b2, b3] < 4294967296"
    using le_unsigned_bounds [of "[b0, b1, b2, b3]"] by simp
  then show ?thesis
    by (simp add: signed_32 le_signed_def Let_def del: le_unsigned.simps)
qed

lemma sint_le_2: "sint (word_of_int (le_unsigned [b0, b1]) :: c_int) = le_unsigned [b0, b1]"
proof -
  have "0 \<le> le_unsigned [b0, b1] \<and> le_unsigned [b0, b1] < 65536"
    using le_unsigned_bounds [of "[b0, b1]"] by simp
  then show ?thesis
    by (simp add: signed_32 del: le_unsigned.simps)
qed

lemma ucast_word_of_int_16: "(ucast (word_of_int x :: c_int) :: c_short) = word_of_int x"
  by (simp add: unsigned_ucast_eq word_eq_iff_unsigned [where ?'a = int] take_bit_eq_mod uint_word_of_int mod_mod_cancel)

lemma sint_short_le_2: "sint (ucast (word_of_int (le_unsigned [b0, b1]) :: c_int) :: c_short) = le_signed [b0, b1]"
proof -
  have b: "0 \<le> le_unsigned [b0, b1] \<and> le_unsigned [b0, b1] < 65536"
    using le_unsigned_bounds [of "[b0, b1]"] by simp
  then show ?thesis
    by (simp add: ucast_word_of_int_16 signed_16 le_signed_def Let_def del: le_unsigned.simps)
qed
lemma length_ge_2E:
  assumes "2 \<le> length xs"
  obtains a b r where "xs = a # b # r"
proof (cases xs)
  case Nil
  with assms show ?thesis by simp
next
  case (Cons a ys)
  with assms obtain b r where "ys = b # r" by (cases ys) auto
  with Cons that show ?thesis by blast
qed

lemma length_ge_4E:
  assumes "4 \<le> length xs"
  obtains a b c d r where "xs = a # b # c # d # r"
proof -
  from assms have "2 \<le> length xs" by simp
  then obtain a b ys where xs: "xs = a # b # ys" by (rule length_ge_2E)
  with assms have "2 \<le> length ys" by simp
  then obtain c d r where "ys = c # d # r" by (rule length_ge_2E)
  with xs that show ?thesis by blast
qed

text \<open>
  C2. On a buffer that holds the bytes it is asked for, for the widths 2 and 4, the
  decoder returns the same integer on a big-endian host (where it runs the reversing
  loop and reads the int most significant byte first) and on a little-endian host
  (where it copies in place), and it does return one.
\<close>

theorem convert_to_int_host_independent:
  assumes "len = 2 \<or> len = 4" and "nat len \<le> length span"
  shows "convert_to_int True span len = convert_to_int False span len \<and>
         convert_to_int False span len \<noteq> None"
proof -
  from assms(1) show ?thesis
  proof
    assume len: "len = 2"
    with assms(2) have "2 \<le> length span" by simp
    then obtain a b r where "span = a # b # r" by (rule length_ge_2E)
    with len show ?thesis by (simp add: convert_to_int_2)
  next
    assume len: "len = 4"
    with assms(2) have "4 \<le> length span" by simp
    then obtain a b c d r where "span = a # b # c # d # r" by (rule length_ge_4E)
    with len show ?thesis by (simp add: convert_to_int_4)
  qed
qed

theorem convert_to_int_host_independent_witness:
  "((4::int) = 2 \<or> (4::int) = 4) \<and> nat 4 \<le> length [0x40, 0x1F, 0x00, 0x80 :: byte] \<and>
   convert_to_int True [0x40, 0x1F, 0x00, 0x80] 4 = convert_to_int False [0x40, 0x1F, 0x00, 0x80] 4 \<and>
   convert_to_int False [0x40, 0x1F, 0x00, 0x80] 4 \<noteq> None"
  using convert_to_int_host_independent [of 4 "[0x40, 0x1F, 0x00, 0x80]"] by simp

text \<open>
  C3, as stated, fails: the two bytes 0xFF 0xFF decode to 65535, while their
  little-endian reading as a signed 16-bit number is -1.
\<close>

theorem convert_to_int_ff_ff:
  "map_option sint (convert_to_int False [0xFF, 0xFF] 2) = Some 65535 \<and>
   le_signed [0xFF, 0xFF] = - 1"
  by (simp add: convert_to_int_2 le_signed_def)

text \<open>
  C3, amended. For four bytes the decoder returns their little-endian reading as a
  signed 32-bit number. For two bytes it returns their unsigned little-endian reading,
  between 0 and 65535; the signed 16-bit reading is what the low 16 bits of the result
  hold, which is what the parser keeps when it assigns the result to a short field.
\<close>

theorem convert_to_int_value:
  "map_option sint (convert_to_int be (b0 # b1 # b2 # b3 # bs) 4) = Some (le_signed [b0, b1, b2, b3]) \<and>
   map_option sint (convert_to_int be (b0 # b1 # bs) 2) = Some (le_unsigned [b0, b1]) \<and>
   0 \<le> le_unsigned [b0, b1] \<and> le_unsigned [b0, b1] < 65536 \<and>
   map_option (\<lambda>v. sint (ucast v :: c_short)) (convert_to_int be (b0 # b1 # bs) 2) =
     Some (le_signed [b0, b1])"
  using le_unsigned_bounds [of "[b0, b1]"]
  by (simp add: convert_to_int_2 convert_to_int_4 sint_le_4 sint_le_2 sint_short_le_2
        del: le_unsigned.simps)

theorem convert_to_int_value_witness:
  "map_option sint (convert_to_int True [0xFE, 0xFF, 0xFF, 0xFF] 4) = Some (- 2) \<and>
   map_option sint (convert_to_int True [0xFE, 0xFF] 2) = Some 65534 \<and>
   map_option (\<lambda>v. sint (ucast v :: c_short)) (convert_to_int True [0xFE, 0xFF] 2) =
     Some (- 2)"
  using convert_to_int_value [of True "0xFE" "0xFF" "0xFF" "0xFF" "[]"]
  by (simp add: le_signed_def)

section \<open>The parser\<close>

lemma convert_to_int_2_take:
  assumes "2 \<le> length b"
  shows "convert_to_int be b 2 = Some (word_of_int (le_unsigned (take 2 b)))"
proof -
  from assms obtain x y r where "b = x # y # r" by (rule length_ge_2E)
  then show ?thesis by (simp add: convert_to_int_2)
qed

lemma convert_to_int_4_take:
  assumes "4 \<le> length b"
  shows "convert_to_int be b 4 = Some (word_of_int (le_unsigned (take 4 b)))"
proof -
  from assms obtain x y z u r where "b = x # y # z # u # r" by (rule length_ge_4E)
  then show ?thesis by (simp add: convert_to_int_4)
qed

subsection \<open>Running a list of statements\<close>

lemma exec_append:
  "exec (cs @ ds) s = (case exec cs s of Inl e \<Rightarrow> Inl e | Inr t \<Rightarrow> exec ds t)"
  by (induction cs arbitrary: s) (auto split: sum.splits)

lemma exec_Inr_induct:
  assumes "exec cs s = Inr s'" and "P s"
    and "\<And>c t t'. c \<in> set cs \<Longrightarrow> P t \<Longrightarrow> c t = Inr t' \<Longrightarrow> P t'"
  shows "P s'"
  using assms
proof (induction cs arbitrary: s)
  case Nil
  then show ?case by simp
next
  case (Cons c cs)
  from Cons.prems(1) obtain t where t: "c s = Inr t" "exec cs t = Inr s'"
    by (auto split: sum.splits)
  from Cons.prems(2,3) t(1) have "P t" by auto
  with Cons.IH [OF t(2)] Cons.prems(3) show ?case by auto
qed

lemma exec_Inl_origin:
  assumes "exec cs s = Inl e" and "P s"
    and "\<And>c t t'. c \<in> set cs \<Longrightarrow> P t \<Longrightarrow> c t = Inr t' \<Longrightarrow> P t'"
  shows "\<exists>c \<in> set cs. \<exists>t. P t \<and> c t = Inl e"
  using assms
proof (induction cs arbitrary: s)
  case Nil
  then show ?case by simp
next
  case (Cons c cs)
  show ?case
  proof (cases "c s")
    case (Inl e')
    with Cons.prems(1) have "c s = Inl e" by simp
    with Cons.prems(2) show ?thesis by auto
  next
    case (Inr t)
    with Cons.prems(1) have ex: "exec cs t = Inl e" by simp
    from Cons.prems(2,3) Inr have "P t" by auto
    with Cons.IH [OF ex] Cons.prems(3) show ?thesis by auto
  qed
qed

subsection \<open>The statements one by one\<close>

lemma length_store: "length (store got arr) = max (length got) (length arr)"
  by (simp add: store_def)

lemma istream_read_length: "length (snd (istream_read f n)) \<le> n"
  by (simp add: istream_read_def Let_def)

lemma read_buffer_eq:
  "read_buffer n s =
     Inr (s\<lparr>file' := fst (istream_read (file' s) n),
            buffer := store (snd (istream_read (file' s) n)) (buffer s)\<rparr>)"
  by (simp add: read_buffer_def split_def Let_def)

text \<open>What a statement that completes leaves behind.\<close>

lemma istream_read_good:
  "good (fst (istream_read f n)) = (good f \<and> n \<le> length (pending f))"
  by (auto simp: istream_read_def Let_def)

lemma istream_read_pending:
  "good (fst (istream_read f n)) \<Longrightarrow> pending (fst (istream_read f n)) = drop n (pending f)"
  by (auto simp: istream_read_def Let_def)

lemma istream_read_not_good:
  "\<not> good f \<Longrightarrow> istream_read f n = (f, [])"
  by (simp add: istream_read_def)

lemma istream_read_suffix:
  "\<exists>pre. pending f = pre @ pending (fst (istream_read f n))"
proof (cases "good f")
  case True
  have "\<exists>pre. pending f = pre @ drop n (pending f)"
    by (rule exI [of _ "take n (pending f)"]) simp
  with True show ?thesis by (simp add: istream_read_def Let_def)
next
  case False
  then show ?thesis by (simp add: istream_read_def)
qed

lemma assign_int_eq:
  "4 \<le> length (buffer s) \<Longrightarrow>
   assign_int h field 4 s =
     Inr (s\<lparr>wave_file := field (word_of_int (le_unsigned (take 4 (buffer s)))) (wave_file s)\<rparr>)"
  by (simp add: assign_int_def convert_to_int_4_take)

lemma assign_short_eq:
  "2 \<le> length (buffer s) \<Longrightarrow>
   assign_short h field 2 s =
     Inr (s\<lparr>wave_file := field (ucast (word_of_int (le_unsigned (take 2 (buffer s))) :: c_int))
                             (wave_file s)\<rparr>)"
  by (simp add: assign_short_def convert_to_int_2_take)

lemma check_riff_eq:
  "check_riff s =
     Inr (s\<lparr>console := console s @
              (if strncmp (buffer s) (c_str ''RIFF'') 4 \<noteq> 0 then ''This is not valid WAV file!''
               else [])\<rparr>)"
  by (simp add: check_riff_def)

lemma skip_extra_data_cases:
  assumes "4 \<le> length (buffer s)"
  shows "skip_extra_data h s =
     (let n = sint (word_of_int (le_unsigned (take 4 (buffer s))) :: c_int)
      in if n < 0 then Inl (bad_array_new_length, console s)
         else if \<not> can_alloc h (nat n) then Inl (bad_alloc, console s)
         else Inr (s\<lparr>file' := fst (istream_read (file' s) (nat n))\<rparr>))"
  using assms
  by (simp add: skip_extra_data_def convert_to_int_4_take new_char_array_def Let_def split_def)

lemma alloc_data_cases:
  "alloc_data h s =
     (let n = sint (subchunk_2_size (wave_file s))
      in if n < 0 then Inl (bad_array_new_length, console s)
         else if \<not> can_alloc h (nat n) then Inl (bad_alloc, console s)
         else Inr (s\<lparr>wave_file := (wave_file s)\<lparr>data := replicate (nat n) None\<rparr>\<rparr>))"
  by (simp add: alloc_data_def new_char_array_def Let_def)

lemma read_data_eq:
  "read_data s =
     Inr (s\<lparr>file' := fst (istream_read (file' s) (nat (sint (subchunk_2_size (wave_file s))))),
            wave_file := (wave_file s)
              \<lparr>data := store (map Some (snd (istream_read (file' s)
                                  (nat (sint (subchunk_2_size (wave_file s)))))))
                           (data (wave_file s))\<rparr>\<rparr>)"
  by (simp add: read_data_def split_def Let_def)


subsection \<open>Invariants\<close>

lemma carried_refl: "carried s s"
  by (simp add: carried_def)

lemma carried_trans: "carried s t \<Longrightarrow> carried t u \<Longrightarrow> carried s u"
  by (auto simp: carried_def)

lemma exec_carried:
  assumes "exec cs s = Inr s'"
    and "\<And>c t t'. c \<in> set cs \<Longrightarrow> c t = Inr t' \<Longrightarrow> carried t t'"
  shows "carried s s'"
proof -
  have "carried s s" by (rule carried_refl)
  with assms(1) show ?thesis
  proof (rule exec_Inr_induct)
    fix c t t'
    assume "c \<in> set cs" "carried s t" "c t = Inr t'"
    with assms(2) show "carried s t'" by (blast intro: carried_trans)
  qed
qed

lemma read_buffer_carried:
  assumes "read_buffer n s = Inr s'" "n \<le> 4"
  shows "carried s s'"
  using assms istream_read_length [of "file' s" n] istream_read_suffix [of "file' s" n]
  by (auto simp: carried_def read_buffer_eq length_store istream_read_good)

lemma read_buffer_2_carried: "read_buffer 2 s = Inr s' \<Longrightarrow> carried s s'"
  by (erule read_buffer_carried) simp

lemma read_buffer_4_carried: "read_buffer 4 s = Inr s' \<Longrightarrow> carried s s'"
  by (erule read_buffer_carried) simp

lemma check_riff_carried: "check_riff s = Inr s' \<Longrightarrow> carried s s'"
  by (auto simp: carried_def check_riff_eq)

lemma assign_int_carried:
  assumes "assign_int h field len s = Inr s'"
    and "\<And>v w. subchunk_1_size (field v w) = subchunk_1_size w"
  shows "carried s s'"
  using assms by (auto simp: carried_def assign_int_def split: option.splits)

lemma assign_short_carried:
  assumes "assign_short h field len s = Inr s'"
    and "\<And>v w. subchunk_1_size (field v w) = subchunk_1_size w"
  shows "carried s s'"
  using assms by (auto simp: carried_def assign_short_def split: option.splits)

lemma skip_extra_data_carried:
  assumes "skip_extra_data h s = Inr s'"
  shows "carried s s'"
  unfolding carried_def
proof
  assume len: "length (buffer s) = 4"
  with assms istream_read_suffix [of "file' s"]
  show "length (buffer s') = 4 \<and>
        subchunk_1_size (wave_file s') = subchunk_1_size (wave_file s) \<and>
        (\<exists>pre. pending (file' s) = pre @ pending (file' s')) \<and>
        (good (file' s') \<longrightarrow> good (file' s))"
    by (auto simp: skip_extra_data_cases Let_def istream_read_good split: if_splits)
qed

lemma alloc_data_carried: "alloc_data h s = Inr s' \<Longrightarrow> carried s s'"
  by (auto simp: carried_def alloc_data_cases Let_def split: if_splits)

lemma read_data_carried: "read_data s = Inr s' \<Longrightarrow> carried s s'"
  using istream_read_suffix [of "file' s"]
  by (auto simp: carried_def read_data_eq istream_read_good)

lemma read_riff_header_carried:
  assumes "read_riff_header h s = Inr s'"
  shows "carried s s'"
  using assms unfolding read_riff_header_def
  by (rule exec_carried)
     (auto intro: read_buffer_4_carried check_riff_carried elim!: assign_int_carried)

lemma read_fmt_subchunk_carried:
  assumes "read_fmt_subchunk h s = Inr s'"
  shows "carried s s'"
  using assms unfolding read_fmt_subchunk_def
  by (rule exec_carried)
     (auto intro: read_buffer_2_carried read_buffer_4_carried
           elim!: assign_int_carried assign_short_carried)

lemma read_subchunk_2_id_carried:
  assumes "read_subchunk_2_id h s = Inr s'"
  shows "carried s s'"
proof (cases "strncmp (buffer s) (c_str ''data'') 4 \<noteq> 0")
  case True
  with assms have "exec [read_buffer 4, skip_extra_data h, read_buffer 4,
                         assign_int h (\<lambda>v w. w\<lparr>subchunk_2_id := v\<rparr>) 4] s = Inr s'"
    by (simp add: read_subchunk_2_id_def)
  then show ?thesis
    by (rule exec_carried)
       (auto intro: read_buffer_2_carried read_buffer_4_carried skip_extra_data_carried elim!: assign_int_carried)
next
  case False
  with assms show ?thesis
    by (auto simp: read_subchunk_2_id_def elim!: assign_int_carried)
qed

lemma read_payload_carried:
  assumes "read_payload h s = Inr s'"
  shows "carried s s'"
  using assms unfolding read_payload_def
  by (rule exec_carried)
     (auto intro: read_buffer_2_carried read_buffer_4_carried alloc_data_carried read_data_carried
           elim!: assign_int_carried)


subsection \<open>Faults\<close>

lemma carried_length: "carried t t' \<Longrightarrow> length (buffer t) = 4 \<Longrightarrow> length (buffer t') = 4"
  by (simp add: carried_def)

lemma read_riff_header_no_fault:
  assumes "length (buffer s) = 4"
  shows "read_riff_header h s \<noteq> Inl x"
proof
  assume "read_riff_header h s = Inl x"
  then have "\<exists>c \<in> set [read_buffer 4, check_riff,
           assign_int h (\<lambda>v w. w\<lparr>chunk_id := v\<rparr>) 4,
           read_buffer 4,
           assign_int h (\<lambda>v w. w\<lparr>chunk_size := v\<rparr>) 4,
           read_buffer 4,
           assign_int h (\<lambda>v w. w\<lparr>format := v\<rparr>) 4]. \<exists>t. length (buffer t) = 4 \<and> c t = Inl x"
    unfolding read_riff_header_def using assms
    by (rule exec_Inl_origin)
       (auto intro: read_buffer_4_carried check_riff_carried carried_length
             elim!: assign_int_carried [THEN carried_length])
  then show False
    by (auto simp: read_buffer_eq check_riff_eq assign_int_eq)
qed

lemma read_fmt_subchunk_no_fault:
  assumes "length (buffer s) = 4"
  shows "read_fmt_subchunk h s \<noteq> Inl x"
proof
  assume "read_fmt_subchunk h s = Inl x"
  then have "\<exists>c \<in> set [read_buffer 4,
           assign_int h (\<lambda>v w. w\<lparr>subchunk_1_id := v\<rparr>) 4,
           read_buffer 2,
           assign_short h (\<lambda>v w. w\<lparr>audio_format := v\<rparr>) 2,
           read_buffer 2,
           assign_short h (\<lambda>v w. w\<lparr>num_channels := v\<rparr>) 2,
           read_buffer 4,
           assign_int h (\<lambda>v w. w\<lparr>sample_rate := v\<rparr>) 4,
           read_buffer 4,
           assign_int h (\<lambda>v w. w\<lparr>byte_rate := v\<rparr>) 4,
           read_buffer 2,
           assign_short h (\<lambda>v w. w\<lparr>block_align := v\<rparr>) 2,
           read_buffer 2,
           assign_short h (\<lambda>v w. w\<lparr>bits_per_sample := v\<rparr>) 2].
             \<exists>t. length (buffer t) = 4 \<and> c t = Inl x"
    unfolding read_fmt_subchunk_def using assms
    by (rule exec_Inl_origin)
       (auto intro: read_buffer_2_carried read_buffer_4_carried carried_length
             elim!: assign_int_carried [THEN carried_length]
                    assign_short_carried [THEN carried_length])
  then show False
    by (auto simp: read_buffer_eq assign_int_eq assign_short_eq)
qed

lemma read_subchunk_2_id_fault:
  assumes "length (buffer s) = 4" and "read_subchunk_2_id h s = Inl (e, out)"
  shows "e = bad_array_new_length \<or> e = bad_alloc"
proof (cases "strncmp (buffer s) (c_str ''data'') 4 \<noteq> 0")
  case True
  with assms have "exec [read_buffer 4, skip_extra_data h, read_buffer 4,
                         assign_int h (\<lambda>v w. w\<lparr>subchunk_2_id := v\<rparr>) 4] s = Inl (e, out)"
    by (simp add: read_subchunk_2_id_def)
  then have "\<exists>c \<in> set [read_buffer 4, skip_extra_data h, read_buffer 4,
                         assign_int h (\<lambda>v w. w\<lparr>subchunk_2_id := v\<rparr>) 4].
               \<exists>t. length (buffer t) = 4 \<and> c t = Inl (e, out)"
    using assms(1)
    by (rule exec_Inl_origin)
       (auto intro: read_buffer_2_carried read_buffer_4_carried skip_extra_data_carried carried_length
             elim!: assign_int_carried [THEN carried_length])
  then show ?thesis
    by (auto simp: read_buffer_eq assign_int_eq skip_extra_data_cases Let_def split: if_splits)
next
  case False
  with assms show ?thesis
    by (simp add: read_subchunk_2_id_def assign_int_eq)
qed

lemma store_fresh:
  "length got \<le> n \<Longrightarrow>
   store (map Some got) (replicate n None) = map Some got @ replicate (n - length got) None"
  by (simp add: store_def)

lemma read_payload_cases:
  assumes "length (buffer s) = 4"
  shows "read_payload h s =
     (let f1 = fst (istream_read (file' s) 4);
          b1 = store (snd (istream_read (file' s) 4)) (buffer s);
          sz = (word_of_int (le_unsigned (take 4 b1)) :: c_int);
          got = snd (istream_read f1 (nat (sint sz)))
      in if sint sz < 0 then Inl (bad_array_new_length, console s)
         else if \<not> can_alloc h (nat (sint sz)) then Inl (bad_alloc, console s)
         else Inr (s\<lparr>file' := fst (istream_read f1 (nat (sint sz))), buffer := b1,
                     wave_file := (wave_file s)
                       \<lparr>subchunk_2_size := sz,
                        data := map Some got @ replicate (nat (sint sz) - length got) None\<rparr>\<rparr>))"
proof -
  have "length (store (snd (istream_read (file' s) 4)) (buffer s)) = 4"
    using assms istream_read_length [of "file' s" 4] by (simp add: length_store)
  then show ?thesis
    using istream_read_length [of "fst (istream_read (file' s) 4)"]
    by (simp add: read_payload_def read_buffer_eq assign_int_eq alloc_data_cases read_data_eq
          Let_def store_fresh)
qed

lemma read_payload_fault:
  assumes "length (buffer s) = 4" and "read_payload h s = Inl (e, out)"
  shows "e = bad_array_new_length \<or> e = bad_alloc"
  using assms by (auto simp: read_payload_cases Let_def split: if_splits)

subsection \<open>The stages of LoadeWaveFile\<close>

lemma entry_length: "length (buffer (entry h f)) = 4"
  by (simp add: entry_def split_def Let_def)

text \<open>The frames between the stages, when the function returns.\<close>

lemma LoadeWaveFile_Inr:
  assumes "fst (LoadeWaveFile h f) = Inr w"
  obtains s1 s2 s3 s4 s5 where "read_riff_header h (entry h f) = Inr s1"
    and "read_fmt_subchunk h s1 = Inr s2" and "read_buffer 4 s2 = Inr s3"
    and "read_subchunk_2_id h s3 = Inr s4" and "read_payload h s4 = Inr s5"
    and "w = wave_file s5" and "snd (LoadeWaveFile h f) = console s5"
  using assms by (auto simp: LoadeWaveFile_def split: sum.splits prod.splits)

lemma LoadeWaveFile_Inl:
  assumes "fst (LoadeWaveFile h f) = Inl e"
  shows "e = bad_array_new_length \<or> e = bad_alloc"
proof -
  let ?s0 = "entry h f"
  have l0: "length (buffer ?s0) = 4" by (rule entry_length)
  obtain s1 where s1: "read_riff_header h ?s0 = Inr s1"
    using read_riff_header_no_fault [OF l0, of h] by (cases "read_riff_header h ?s0") auto
  then have l1: "length (buffer s1) = 4"
    using l0 by (blast intro: read_riff_header_carried carried_length)
  obtain s2 where s2: "read_fmt_subchunk h s1 = Inr s2"
    using read_fmt_subchunk_no_fault [OF l1, of h] by (cases "read_fmt_subchunk h s1") auto
  then have l2: "length (buffer s2) = 4"
    using l1 by (blast intro: read_fmt_subchunk_carried carried_length)
  obtain s3 where s3: "read_buffer 4 s2 = Inr s3"
    by (simp add: read_buffer_eq)
  then have l3: "length (buffer s3) = 4"
    using l2 by (blast intro: read_buffer_4_carried carried_length)
  show ?thesis
  proof (cases "read_subchunk_2_id h s3")
    case (Inl x)
    with assms s1 s2 s3 have "read_subchunk_2_id h s3 = Inl (e, snd x)"
      by (cases x) (simp add: LoadeWaveFile_def)
    with l3 show ?thesis by (rule read_subchunk_2_id_fault)
  next
    case s4: (Inr s4)
    then have l4: "length (buffer s4) = 4"
      using l3 by (blast intro: read_subchunk_2_id_carried carried_length)
    show ?thesis
    proof (cases "read_payload h s4")
      case (Inl x)
      with assms s1 s2 s3 s4 have "read_payload h s4 = Inl (e, snd x)"
        by (cases x) (simp add: LoadeWaveFile_def)
      with l4 show ?thesis by (rule read_payload_fault)
    next
      case (Inr s5)
      with assms s1 s2 s3 s4 show ?thesis by (simp add: LoadeWaveFile_def)
    qed
  qed
qed

subsection \<open>How far the stream has moved\<close>

lemma takes_exec:
  assumes "list_all2 takes cs ns"
  shows "takes (exec cs) (sum_list ns)"
  using assms
proof (induction cs ns rule: list_all2_induct)
  case Nil
  show ?case by (simp add: takes_def)
next
  case (Cons c cs n ns)
  show ?case
    unfolding takes_def
  proof (intro allI impI)
    fix s s'
    assume "exec (c # cs) s = Inr s'"
    then obtain t where t: "c s = Inr t" "exec cs t = Inr s'"
      by (auto split: sum.splits)
    from Cons.hyps(1) t(1)
    have c: "good (file' t) = (good (file' s) \<and> n \<le> length (pending (file' s)))"
      "good (file' t) \<Longrightarrow> pending (file' t) = drop n (pending (file' s))"
      by (simp_all add: takes_def)
    from Cons.IH t(2)
    have r: "good (file' s') = (good (file' t) \<and> sum_list ns \<le> length (pending (file' t)))"
      "good (file' s') \<Longrightarrow> pending (file' s') = drop (sum_list ns) (pending (file' t))"
      by (simp_all add: takes_def)
    show "good (file' s') =
            (good (file' s) \<and> sum_list (n # ns) \<le> length (pending (file' s))) \<and>
          (good (file' s') \<longrightarrow>
             pending (file' s') = drop (sum_list (n # ns)) (pending (file' s)))"
      using c r by (auto simp: add.commute)
  qed
qed

lemma takes_read_buffer: "takes (read_buffer n) n"
  by (auto simp: takes_def read_buffer_eq istream_read_good istream_read_pending)

lemma takes_check_riff: "takes check_riff 0"
  by (auto simp: takes_def check_riff_eq)

lemma takes_assign_int: "takes (assign_int h field len) 0"
  by (auto simp: takes_def assign_int_def split: option.splits)

lemma takes_assign_short: "takes (assign_short h field len) 0"
  by (auto simp: takes_def assign_short_def split: option.splits)

lemma takes_read_riff_header: "takes (read_riff_header h) 12"
proof -
  have "list_all2 takes
          [read_buffer 4, check_riff, assign_int h (\<lambda>v w. w\<lparr>chunk_id := v\<rparr>) 4,
           read_buffer 4, assign_int h (\<lambda>v w. w\<lparr>chunk_size := v\<rparr>) 4,
           read_buffer 4, assign_int h (\<lambda>v w. w\<lparr>format := v\<rparr>) 4]
          [4, 0, 0, 4, 0, 4, 0]"
    by (simp add: takes_read_buffer takes_check_riff takes_assign_int)
  then have "takes (read_riff_header h) (sum_list [4, 0, 0, 4, 0, 4, 0])"
    unfolding read_riff_header_def by (rule takes_exec)
  then show ?thesis by simp
qed

lemma takes_read_fmt_subchunk: "takes (read_fmt_subchunk h) 20"
proof -
  have "list_all2 takes
          [read_buffer 4, assign_int h (\<lambda>v w. w\<lparr>subchunk_1_id := v\<rparr>) 4,
           read_buffer 2, assign_short h (\<lambda>v w. w\<lparr>audio_format := v\<rparr>) 2,
           read_buffer 2, assign_short h (\<lambda>v w. w\<lparr>num_channels := v\<rparr>) 2,
           read_buffer 4, assign_int h (\<lambda>v w. w\<lparr>sample_rate := v\<rparr>) 4,
           read_buffer 4, assign_int h (\<lambda>v w. w\<lparr>byte_rate := v\<rparr>) 4,
           read_buffer 2, assign_short h (\<lambda>v w. w\<lparr>block_align := v\<rparr>) 2,
           read_buffer 2, assign_short h (\<lambda>v w. w\<lparr>bits_per_sample := v\<rparr>) 2]
          [4, 0, 2, 0, 2, 0, 4, 0, 4, 0, 2, 0, 2, 0]"
    by (simp add: takes_read_buffer takes_assign_int takes_assign_short)
  then have "takes (read_fmt_subchunk h) (sum_list [4, 0, 2, 0, 2, 0, 4, 0, 4, 0, 2, 0, 2, 0])"
    unfolding read_fmt_subchunk_def by (rule takes_exec)
  then show ?thesis by simp
qed

subsection \<open>What the stages write\<close>

text \<open>
  Each stage writes its own fields of the struct and no other: with those fields
  overwritten, the struct after the stage is the struct before it.
\<close>

lemma read_subchunk_2_id_writes:
  assumes "read_subchunk_2_id h s = Inr s'"
  shows "(wave_file s')\<lparr>subchunk_2_id := 0\<rparr> = (wave_file s)\<lparr>subchunk_2_id := 0\<rparr> \<and>
         console s' = console s"
proof (cases "strncmp (buffer s) (c_str ''data'') 4 \<noteq> 0")
  case True
  with assms have "exec [read_buffer 4, skip_extra_data h, read_buffer 4,
                         assign_int h (\<lambda>v w. w\<lparr>subchunk_2_id := v\<rparr>) 4] s = Inr s'"
    by (simp add: read_subchunk_2_id_def)
  then show ?thesis
    by (rule exec_Inr_induct)
       (auto simp: read_buffer_eq skip_extra_data_def assign_int_def split_def Let_def
             split: option.splits sum.splits)
next
  case False
  with assms show ?thesis
    by (auto simp: read_subchunk_2_id_def assign_int_def split: option.splits)
qed

lemma read_payload_writes:
  assumes "read_payload h s = Inr s'"
  shows "(wave_file s')\<lparr>subchunk_2_size := 0, data := []\<rparr> =
           (wave_file s)\<lparr>subchunk_2_size := 0, data := []\<rparr> \<and>
         console s' = console s"
  using assms unfolding read_payload_def
  by (rule exec_Inr_induct)
     (auto simp: read_buffer_eq alloc_data_def read_data_eq assign_int_def split_def Let_def
           split: option.splits sum.splits)

lemma read_riff_header_writes:
  assumes "read_riff_header h s = Inr s'"
  shows "(wave_file s')\<lparr>chunk_id := 0, chunk_size := 0, format := 0\<rparr> =
           (wave_file s)\<lparr>chunk_id := 0, chunk_size := 0, format := 0\<rparr>"
  using assms unfolding read_riff_header_def
  by (rule exec_Inr_induct)
     (auto simp: read_buffer_eq check_riff_eq assign_int_def split: option.splits)

lemma read_fmt_subchunk_writes:
  assumes "read_fmt_subchunk h s = Inr s'"
  shows "(wave_file s')\<lparr>subchunk_1_id := 0, audio_format := 0, num_channels := 0,
                         sample_rate := 0, byte_rate := 0, block_align := 0,
                         bits_per_sample := 0\<rparr> =
           (wave_file s)\<lparr>subchunk_1_id := 0, audio_format := 0, num_channels := 0,
                          sample_rate := 0, byte_rate := 0, block_align := 0,
                          bits_per_sample := 0\<rparr> \<and>
         console s' = console s"
  using assms unfolding read_fmt_subchunk_def
  by (rule exec_Inr_induct)
     (auto simp: read_buffer_eq assign_int_def assign_short_def split: option.splits)

subsection \<open>The whole function\<close>

lemma entry_simps:
  "pending (file' (entry h (Some bytes))) = bytes"
  "good (file' (entry h (Some bytes)))"
  "pending (file' (entry h None)) = []"
  "\<not> good (file' (entry h None))"
  "wave_file (entry h f) = new_WaveFile"
  "console (entry h f) = []"
  by (simp_all add: entry_def ifstream_open_def split_def Let_def)


lemma after_lookahead_keeps:
  assumes "read_subchunk_2_id h s3 = Inr s4" "read_payload h s4 = Inr s5"
  shows "chunk_id (wave_file s5) = chunk_id (wave_file s3)"
    "chunk_size (wave_file s5) = chunk_size (wave_file s3)"
    "format (wave_file s5) = format (wave_file s3)"
    "subchunk_1_id (wave_file s5) = subchunk_1_id (wave_file s3)"
    "subchunk_1_size (wave_file s5) = subchunk_1_size (wave_file s3)"
    "audio_format (wave_file s5) = audio_format (wave_file s3)"
    "num_channels (wave_file s5) = num_channels (wave_file s3)"
    "sample_rate (wave_file s5) = sample_rate (wave_file s3)"
    "byte_rate (wave_file s5) = byte_rate (wave_file s3)"
    "block_align (wave_file s5) = block_align (wave_file s3)"
    "bits_per_sample (wave_file s5) = bits_per_sample (wave_file s3)"
    "subchunk_2_id (wave_file s5) = subchunk_2_id (wave_file s4)"
    "console s5 = console s3"
proof -
  from read_subchunk_2_id_writes [OF assms(1)]
  have a: "(wave_file s4)\<lparr>subchunk_2_id := 0\<rparr> = (wave_file s3)\<lparr>subchunk_2_id := 0\<rparr>"
    and c1: "console s4 = console s3" by simp_all
  from read_payload_writes [OF assms(2)]
  have b: "(wave_file s5)\<lparr>subchunk_2_size := 0, data := []\<rparr> =
           (wave_file s4)\<lparr>subchunk_2_size := 0, data := []\<rparr>"
    and c2: "console s5 = console s4" by simp_all
  show "chunk_id (wave_file s5) = chunk_id (wave_file s3)"
    using arg_cong [OF a, of chunk_id] arg_cong [OF b, of chunk_id] by simp
  show "chunk_size (wave_file s5) = chunk_size (wave_file s3)"
    using arg_cong [OF a, of chunk_size] arg_cong [OF b, of chunk_size] by simp
  show "format (wave_file s5) = format (wave_file s3)"
    using arg_cong [OF a, of format] arg_cong [OF b, of format] by simp
  show "subchunk_1_id (wave_file s5) = subchunk_1_id (wave_file s3)"
    using arg_cong [OF a, of subchunk_1_id] arg_cong [OF b, of subchunk_1_id] by simp
  show "subchunk_1_size (wave_file s5) = subchunk_1_size (wave_file s3)"
    using arg_cong [OF a, of subchunk_1_size] arg_cong [OF b, of subchunk_1_size] by simp
  show "audio_format (wave_file s5) = audio_format (wave_file s3)"
    using arg_cong [OF a, of audio_format] arg_cong [OF b, of audio_format] by simp
  show "num_channels (wave_file s5) = num_channels (wave_file s3)"
    using arg_cong [OF a, of num_channels] arg_cong [OF b, of num_channels] by simp
  show "sample_rate (wave_file s5) = sample_rate (wave_file s3)"
    using arg_cong [OF a, of sample_rate] arg_cong [OF b, of sample_rate] by simp
  show "byte_rate (wave_file s5) = byte_rate (wave_file s3)"
    using arg_cong [OF a, of byte_rate] arg_cong [OF b, of byte_rate] by simp
  show "block_align (wave_file s5) = block_align (wave_file s3)"
    using arg_cong [OF a, of block_align] arg_cong [OF b, of block_align] by simp
  show "bits_per_sample (wave_file s5) = bits_per_sample (wave_file s3)"
    using arg_cong [OF a, of bits_per_sample] arg_cong [OF b, of bits_per_sample] by simp
  show "subchunk_2_id (wave_file s5) = subchunk_2_id (wave_file s4)"
    using arg_cong [OF b, of subchunk_2_id] by simp
  from c1 c2 show "console s5 = console s3" by simp
qed

lemma carried_to_payload:
  assumes "read_riff_header h (entry h f) = Inr s1" "read_fmt_subchunk h s1 = Inr s2"
    "read_buffer 4 s2 = Inr s3" "read_subchunk_2_id h s3 = Inr s4"
  shows "carried (entry h f) s4"
proof -
  have "carried (entry h f) s1" using assms(1) by (rule read_riff_header_carried)
  moreover have "carried s1 s2" using assms(2) by (rule read_fmt_subchunk_carried)
  moreover have "carried s2 s3" using assms(3) by (rule read_buffer_4_carried)
  moreover have "carried s3 s4" using assms(4) by (rule read_subchunk_2_id_carried)
  ultimately show ?thesis by (blast intro: carried_trans)
qed


subsection \<open>The field that is never read\<close>

text \<open>
  C10. The struct that is returned has \<open>subchunk_1_size = 0\<close>, the value that
  \<^verbatim>\<open>new WaveFile()\<close> gave it; and no Subchunk1Size is read: of a file of 18 bytes or
  more, bytes 12 to 15 are decoded into \<open>subchunk_1_id\<close> and the two bytes right after
  them, bytes 16 and 17, into \<open>audio_format\<close>.
\<close>

theorem subchunk_1_size_never_read:
  "(fst (LoadeWaveFile h f) = Inr w \<longrightarrow> subchunk_1_size w = 0) \<and>
   (length p = 16 \<and> fst (LoadeWaveFile h (Some (p @ x # y # rest))) = Inr w' \<longrightarrow>
      subchunk_1_id w' = word_of_int (le_unsigned (drop 12 p)) \<and>
      audio_format w' = word_of_int (le_unsigned [x, y]))"
proof (rule conjI; rule impI)
  assume "fst (LoadeWaveFile h f) = Inr w"
  then obtain s1 s2 s3 s4 s5 where st: "read_riff_header h (entry h f) = Inr s1"
    "read_fmt_subchunk h s1 = Inr s2" "read_buffer 4 s2 = Inr s3"
    "read_subchunk_2_id h s3 = Inr s4" "read_payload h s4 = Inr s5" and w: "w = wave_file s5"
    by (rule LoadeWaveFile_Inr)
  have "carried (entry h f) s4" using st(1-4) by (rule carried_to_payload)
  moreover have "carried s4 s5" using st(5) by (rule read_payload_carried)
  ultimately have "carried (entry h f) s5" by (rule carried_trans)
  then show "subchunk_1_size w = 0"
    by (simp add: carried_def entry_length entry_simps w new_WaveFile_def)
next
  let ?f = "Some (p @ x # y # rest)"
  assume a: "length p = 16 \<and> fst (LoadeWaveFile h ?f) = Inr w'"
  then obtain s1 s2 s3 s4 s5 where st: "read_riff_header h (entry h ?f) = Inr s1"
    "read_fmt_subchunk h s1 = Inr s2" "read_buffer 4 s2 = Inr s3"
    "read_subchunk_2_id h s3 = Inr s4" "read_payload h s4 = Inr s5" and w: "w' = wave_file s5"
    by (auto elim: LoadeWaveFile_Inr)
  have l1: "length (buffer s1) = 4"
    using read_riff_header_carried [OF st(1)] entry_length by (rule carried_length)
  have g1: "good (file' s1)" "pending (file' s1) = drop 12 p @ x # y # rest"
    using takes_read_riff_header [of h] st(1) a
    by (simp_all add: takes_def entry_simps)
  let ?rest = "[read_buffer 2, assign_short h (\<lambda>v w. w\<lparr>num_channels := v\<rparr>) 2,
           read_buffer 4, assign_int h (\<lambda>v w. w\<lparr>sample_rate := v\<rparr>) 4,
           read_buffer 4, assign_int h (\<lambda>v w. w\<lparr>byte_rate := v\<rparr>) 4,
           read_buffer 2, assign_short h (\<lambda>v w. w\<lparr>block_align := v\<rparr>) 2,
           read_buffer 2, assign_short h (\<lambda>v w. w\<lparr>bits_per_sample := v\<rparr>) 2]"
  have "read_fmt_subchunk h =
          exec ([read_buffer 4, assign_int h (\<lambda>v w. w\<lparr>subchunk_1_id := v\<rparr>) 4,
                 read_buffer 2, assign_short h (\<lambda>v w. w\<lparr>audio_format := v\<rparr>) 2] @ ?rest)"
    by (simp add: read_fmt_subchunk_def)
  with st(2) obtain t where
    t: "exec [read_buffer 4, assign_int h (\<lambda>v w. w\<lparr>subchunk_1_id := v\<rparr>) 4,
              read_buffer 2, assign_short h (\<lambda>v w. w\<lparr>audio_format := v\<rparr>) 2] s1 = Inr t"
    and r: "exec ?rest t = Inr s2"
    by (auto simp only: exec_append split: sum.splits)
  let ?P = "\<lambda>t. subchunk_1_id (wave_file t) = word_of_int (le_unsigned (drop 12 p)) \<and>
                 audio_format (wave_file t) = word_of_int (le_unsigned [x, y])"
  from t l1 g1 a have "?P t"
    by (auto simp: read_buffer_eq istream_read_def store_def assign_int_eq assign_short_eq
          ucast_word_of_int_16 Let_def simp del: le_unsigned.simps)
  with r have "?P s2"
    by (rule exec_Inr_induct)
       (auto simp: read_buffer_eq assign_int_def assign_short_def split: option.splits)
  moreover have "wave_file s3 = wave_file s2"
    using st(3) by (auto simp: read_buffer_eq)
  moreover note after_lookahead_keeps(4,6) [OF st(4,5)]
  ultimately show "subchunk_1_id w' = word_of_int (le_unsigned (drop 12 p)) \<and>
      audio_format w' = word_of_int (le_unsigned [x, y])"
    by (simp add: w)
qed

subsection \<open>Running the parser on given files\<close>

lemma strncmp_4:
  "e \<noteq> 0 \<Longrightarrow> f \<noteq> 0 \<Longrightarrow> g \<noteq> 0 \<Longrightarrow> k \<noteq> 0 \<Longrightarrow>
   (strncmp [a, b, c, d] [e, f, g, k] 4 = 0) = ([a, b, c, d] = [e, f, g, k])"
  by (auto simp add: eval_nat_numeral Let_def simp flip: word_uint_eq_iff)

lemmas run =
  LoadeWaveFile_def entry_def ifstream_open_def read_riff_header_def read_fmt_subchunk_def
  read_buffer_def istream_read_def store_def check_riff_def assign_int_def assign_short_def
  read_subchunk_2_id_def skip_extra_data_def read_payload_def alloc_data_def read_data_def
  new_char_array_def new_WaveFile_def convert_to_int_2 convert_to_int_4 strncmp_4
  c_str_def le_bytes_16_def le_bytes_32_def fixed_32_def le_host_def be_host_def
  split_def Let_def

lemma run_plain_file:
  "LoadeWaveFile h (Some plain_file) =
     (if can_alloc h 4
      then Inr \<lparr>chunk_id = 1179011410, chunk_size = 40, format = 1163280727,
                subchunk_1_id = 544501094, subchunk_1_size = 0, audio_format = 1,
                num_channels = 1, sample_rate = 8000, byte_rate = 8000, block_align = 1,
                bits_per_sample = 8, subchunk_2_id = 1635017060, subchunk_2_size = 4,
                data = [Some 1, Some 2, Some 3, Some 4]\<rparr>
      else Inl bad_alloc, [])"
  by (simp add: run plain_file_def)


lemma run_minimal_pcm:
  "LoadeWaveFile h (Some minimal_pcm) =
     (if can_alloc h 1635017060
      then Inr \<lparr>chunk_id = 1179011410, chunk_size = 44, format = 1163280727,
                subchunk_1_id = 544501094, subchunk_1_size = 0, audio_format = 16,
                num_channels = 0, sample_rate = 65537, byte_rate = 8000, block_align = 8000,
                bits_per_sample = 0, subchunk_2_id = 1635017060, subchunk_2_size = 1635017060,
                data = replicate 1635017060 None\<rparr>
      else Inl bad_alloc, [])"
  by (simp add: run minimal_pcm_def)

lemma run_rifx_file:
  "LoadeWaveFile le_host (Some rifx_file) =
     (Inr \<lparr>chunk_id = 1481001298, chunk_size = 40, format = 1163280727,
           subchunk_1_id = 544501094, subchunk_1_size = 0, audio_format = 1,
           num_channels = 1, sample_rate = 8000, byte_rate = 8000, block_align = 1,
           bits_per_sample = 8, subchunk_2_id = 1635017060, subchunk_2_size = 4,
           data = [Some 1, Some 2, Some 3, Some 4]\<rparr>,
      ''This is not valid WAV file!'')"
  by (simp add: run rifx_file_def)

lemma run_short_payload:
  "LoadeWaveFile le_host (Some short_payload) =
     (Inr \<lparr>chunk_id = 1179011410, chunk_size = 40, format = 1163280727,
           subchunk_1_id = 544501094, subchunk_1_size = 0, audio_format = 1,
           num_channels = 1, sample_rate = 8000, byte_rate = 8000, block_align = 1,
           bits_per_sample = 8, subchunk_2_id = 1635017060, subchunk_2_size = 8,
           data = [Some 1, Some 2, Some 3] @ replicate 5 None\<rparr>,
      [])"
  by (simp add: run short_payload_def)

lemma run_cut_after_fmt:
  "LoadeWaveFile le_host (Some cut_after_fmt) =
     (Inr \<lparr>chunk_id = 1179011410, chunk_size = 40, format = 1163280727,
           subchunk_1_id = 544501094, subchunk_1_size = 0, audio_format = 28006,
           num_channels = 28006, sample_rate = 544501094, byte_rate = 544501094,
           block_align = 28006, bits_per_sample = 28006, subchunk_2_id = 544501094,
           subchunk_2_size = 544501094, data = replicate 544501094 None\<rparr>,
      [])"
  by (simp add: run cut_after_fmt_def)

theorem subchunk_1_size_never_read_witness:
  "fst (LoadeWaveFile be_host (Some plain_file)) =
     Inr \<lparr>chunk_id = 1179011410, chunk_size = 40, format = 1163280727,
          subchunk_1_id = 544501094, subchunk_1_size = 0, audio_format = 1,
          num_channels = 1, sample_rate = 8000, byte_rate = 8000, block_align = 1,
          bits_per_sample = 8, subchunk_2_id = 1635017060, subchunk_2_size = 4,
          data = [Some 1, Some 2, Some 3, Some 4]\<rparr> \<and>
   length (take 16 plain_file) = 16 \<and>
   plain_file = take 16 plain_file @ 1 # 0 # drop 18 plain_file \<and>
   (544501094 :: c_int) = word_of_int (le_unsigned (drop 12 (take 16 plain_file))) \<and>
   (1 :: c_short) = word_of_int (le_unsigned [1, 0])"
  using subchunk_1_size_never_read [of be_host "Some plain_file"
          "\<lparr>chunk_id = 1179011410, chunk_size = 40, format = 1163280727,
          subchunk_1_id = 544501094, subchunk_1_size = 0, audio_format = 1,
          num_channels = 1, sample_rate = 8000, byte_rate = 8000, block_align = 1,
          bits_per_sample = 8, subchunk_2_id = 1635017060, subchunk_2_size = 4,
          data = [Some 1, Some 2, Some 3, Some 4]\<rparr>"
          "take 16 plain_file" 1 0 "drop 18 plain_file"
          "\<lparr>chunk_id = 1179011410, chunk_size = 40, format = 1163280727,
          subchunk_1_id = 544501094, subchunk_1_size = 0, audio_format = 1,
          num_channels = 1, sample_rate = 8000, byte_rate = 8000, block_align = 1,
          bits_per_sample = 8, subchunk_2_id = 1635017060, subchunk_2_size = 4,
          data = [Some 1, Some 2, Some 3, Some 4]\<rparr>"]
  by (simp add: run_plain_file be_host_def)
     (simp add: plain_file_def fixed_32_def c_str_def le_bytes_16_def le_bytes_32_def)

subsection \<open>The minimal PCM file\<close>

text \<open>
  C1 fails on the code. The 48 bytes of the minimal PCM file hold Subchunk1Size at
  offset 16; the parser reads no such field, so it takes those bytes for
  \<open>audio_format\<close> and \<open>num_channels\<close>, every later field from bytes four places too
  early, the tag "data" for the length of an extension chunk and, the stream being
  exhausted by then, the same stale four bytes for \<open>subchunk_2_size\<close>.
\<close>

theorem minimal_pcm_misparsed:
  "fst (LoadeWaveFile h (Some minimal_pcm)) =
     (if can_alloc h 1635017060
      then Inr \<lparr>chunk_id = 1179011410, chunk_size = 44, format = 1163280727,
                subchunk_1_id = 544501094, subchunk_1_size = 0, audio_format = 16,
                num_channels = 0, sample_rate = 65537, byte_rate = 8000, block_align = 8000,
                bits_per_sample = 0, subchunk_2_id = 1635017060, subchunk_2_size = 1635017060,
                data = replicate 1635017060 None\<rparr>
      else Inl bad_alloc)"
  by (simp add: run_minimal_pcm)

theorem minimal_pcm_misparsed_witness:
  "map_sum id (\<lambda>w. (num_channels w, sample_rate w, subchunk_2_size w))
     (fst (LoadeWaveFile le_host (Some minimal_pcm))) = Inr (0, 65537, 1635017060)"
  using minimal_pcm_misparsed [of le_host] by (simp add: le_host_def)

lemma those_replicate_None: "0 < n \<Longrightarrow> those (replicate n (None :: 'a option)) = None"
  by (cases n) simp_all

text \<open>
  C7 fails on the code, by the defect of C1: for the minimal PCM file, which has the
  canonical 16-byte format subchunk and no extension, the record that the parser
  returns does not serialise to the file; the 44 bytes of its header already differ
  from those of the file.
\<close>

theorem minimal_pcm_round_trip_fails:
  assumes "fst (LoadeWaveFile h (Some minimal_pcm)) = Inr w"
  shows "serialize_header w \<noteq> take 44 minimal_pcm \<and> serialize_layout w \<noteq> Some minimal_pcm"
proof -
  from assms have w: "w = \<lparr>chunk_id = 1179011410, chunk_size = 44, format = 1163280727,
                subchunk_1_id = 544501094, subchunk_1_size = 0, audio_format = 16,
                num_channels = 0, sample_rate = 65537, byte_rate = 8000, block_align = 8000,
                bits_per_sample = 0, subchunk_2_id = 1635017060, subchunk_2_size = 1635017060,
                data = replicate 1635017060 None\<rparr>"
    by (simp add: run_minimal_pcm split: if_splits)
  have "serialize_header w \<noteq> take 44 minimal_pcm"
    by (simp add: w serialize_header_def minimal_pcm_def le_bytes_32_def le_bytes_16_def c_str_def)
  moreover have "serialize_layout w = None"
    by (simp add: w serialize_layout_def those_replicate_None)
  ultimately show ?thesis by simp
qed

theorem minimal_pcm_round_trip_fails_witness:
  "fst (LoadeWaveFile le_host (Some minimal_pcm)) =
     Inr \<lparr>chunk_id = 1179011410, chunk_size = 44, format = 1163280727,
                subchunk_1_id = 544501094, subchunk_1_size = 0, audio_format = 16,
                num_channels = 0, sample_rate = 65537, byte_rate = 8000, block_align = 8000,
                bits_per_sample = 0, subchunk_2_id = 1635017060, subchunk_2_size = 1635017060,
                data = replicate 1635017060 None\<rparr> \<and>
   serialize_layout \<lparr>chunk_id = 1179011410, chunk_size = 44, format = 1163280727,
                subchunk_1_id = 544501094, subchunk_1_size = 0, audio_format = 16,
                num_channels = 0, sample_rate = 65537, byte_rate = 8000, block_align = 8000,
                bits_per_sample = 0, subchunk_2_id = 1635017060, subchunk_2_size = 1635017060,
                data = replicate 1635017060 None\<rparr> \<noteq> Some minimal_pcm"
  using minimal_pcm_round_trip_fails [of le_host
     "\<lparr>chunk_id = 1179011410, chunk_size = 44, format = 1163280727,
                subchunk_1_id = 544501094, subchunk_1_size = 0, audio_format = 16,
                num_channels = 0, sample_rate = 65537, byte_rate = 8000, block_align = 8000,
                bits_per_sample = 0, subchunk_2_id = 1635017060, subchunk_2_size = 1635017060,
                data = replicate 1635017060 None\<rparr>"]
  by (simp add: run_minimal_pcm le_host_def)

subsection \<open>Records and errors\<close>



subsection \<open>Streams that end early\<close>

lemma takes_fixed_fields:
  "takes (exec [read_riff_header h, read_fmt_subchunk h, read_buffer 4]) 36"
proof -
  have "list_all2 takes [read_riff_header h, read_fmt_subchunk h, read_buffer 4] [12, 20, 4]"
    by (simp add: takes_read_riff_header takes_read_fmt_subchunk takes_read_buffer)
  then have "takes (exec [read_riff_header h, read_fmt_subchunk h, read_buffer 4])
               (sum_list [12, 20, 4])"
    by (rule takes_exec)
  then show ?thesis by simp
qed

lemma short_stream_unreported:
  assumes "length bytes < 40"
  shows "fst (LoadeWaveFile h (Some bytes)) = Inl bad_array_new_length \<or>
         fst (LoadeWaveFile h (Some bytes)) = Inl bad_alloc \<or>
         (\<exists>w. fst (LoadeWaveFile h (Some bytes)) = Inr w \<and>
              0 \<le> sint (subchunk_2_size w) \<and>
              data w = replicate (nat (sint (subchunk_2_size w))) None)"
proof (cases "fst (LoadeWaveFile h (Some bytes))")
  case (Inl e)
  then show ?thesis using LoadeWaveFile_Inl [of h "Some bytes" e] by auto
next
  case (Inr w)
  let ?s0 = "entry h (Some bytes)"
  from Inr obtain s1 s2 s3 s4 s5 where st: "read_riff_header h ?s0 = Inr s1"
    "read_fmt_subchunk h s1 = Inr s2" "read_buffer 4 s2 = Inr s3"
    "read_subchunk_2_id h s3 = Inr s4" "read_payload h s4 = Inr s5" and w: "w = wave_file s5"
    by (rule LoadeWaveFile_Inr)
  from st(1-3) have "exec [read_riff_header h, read_fmt_subchunk h, read_buffer 4] ?s0 = Inr s3"
    by simp
  with takes_fixed_fields [of h]
  have g3: "good (file' s3) \<Longrightarrow> 36 \<le> length bytes \<and> pending (file' s3) = drop 36 bytes"
    by (simp add: takes_def entry_simps)
  have l3: "length (buffer s3) = 4"
    using carried_trans [OF carried_trans [OF read_riff_header_carried [OF st(1)]
            read_fmt_subchunk_carried [OF st(2)]] read_buffer_4_carried [OF st(3)]] entry_length
    by (rule carried_length)
  have c4: "carried s3 s4" using st(4) by (rule read_subchunk_2_id_carried)
  then have l4: "length (buffer s4) = 4" using l3 by (rule carried_length)
  have short: "\<not> (good (file' s4) \<and> 4 \<le> length (pending (file' s4)))"
  proof
    assume a: "good (file' s4) \<and> 4 \<le> length (pending (file' s4))"
    with c4 l3 have "good (file' s3)" by (simp add: carried_def)
    with g3 have "length (pending (file' s3)) = length bytes - 36" by simp
    moreover from c4 l3 obtain pre where "pending (file' s3) = pre @ pending (file' s4)"
      by (auto simp: carried_def)
    ultimately have "length (pending (file' s4)) \<le> length bytes - 36" by simp
    with a assms show False by arith
  qed
  then have "\<not> good (fst (istream_read (file' s4) 4))"
    by (simp add: istream_read_good)
  then have "snd (istream_read (fst (istream_read (file' s4) 4)) n) = []" for n
    by (simp add: istream_read_not_good)
  with st(5) l4 have "0 \<le> sint (subchunk_2_size w) \<and>
                      data w = replicate (nat (sint (subchunk_2_size w))) None"
    by (auto simp: w read_payload_cases Let_def split: if_splits)
  with Inr show ?thesis by simp
qed

lemma istream_eq: "pending f = p \<Longrightarrow> good f = g \<Longrightarrow> f = \<lparr>pending = p, good = g\<rparr>"
  by (cases f) simp

lemma low_half:
  "(word_of_int (le_unsigned [c0, c1, c2, c3]) :: c_short) = word_of_int (le_unsigned [c0, c1])"
proof -
  have "le_unsigned [c0, c1, c2, c3] = le_unsigned [c0, c1] + 65536 * le_unsigned [c2, c3]"
    by simp
  then have "le_unsigned [c0, c1, c2, c3] mod 65536 = le_unsigned [c0, c1] mod 65536"
    by (simp only: mod_mult_self2)
  then have "take_bit 16 (le_unsigned [c0, c1, c2, c3]) = take_bit 16 (le_unsigned [c0, c1])"
    by (simp only: take_bit_eq_mod) simp
  then show ?thesis
    by (simp only: word_of_int_eq_iff) simp
qed

lemma stale_after_fmt:
  assumes "length p = 12" and "fst (LoadeWaveFile h (Some (p @ [c0, c1, c2, c3]))) = Inr w"
  defines "v \<equiv> (word_of_int (le_unsigned [c0, c1, c2, c3]) :: c_int)"
  shows "subchunk_1_id w = v \<and> audio_format w = ucast v \<and> num_channels w = ucast v \<and>
         sample_rate w = v \<and> byte_rate w = v \<and> block_align w = ucast v \<and>
         bits_per_sample w = ucast v \<and> subchunk_2_id w = v \<and> subchunk_2_size w = v"
proof -
  let ?s0 = "entry h (Some (p @ [c0, c1, c2, c3]))"
  from assms(2) obtain s1 s2 s3 s4 s5 where st: "read_riff_header h ?s0 = Inr s1"
    "read_fmt_subchunk h s1 = Inr s2" "read_buffer 4 s2 = Inr s3"
    "read_subchunk_2_id h s3 = Inr s4" "read_payload h s4 = Inr s5" and w: "w = wave_file s5"
    by (rule LoadeWaveFile_Inr)
  have l1: "length (buffer s1) = 4"
    using read_riff_header_carried [OF st(1)] entry_length by (rule carried_length)
  have "good (file' s1)" "pending (file' s1) = [c0, c1, c2, c3]"
    using takes_read_riff_header [of h] st(1) assms(1)
    by (simp_all add: takes_def entry_simps)
  then have f1: "file' s1 = \<lparr>pending = [c0, c1, c2, c3], good = True\<rparr>"
    by (simp add: istream_eq)
  from l1 obtain g0 g1 g2 g3 where b1: "buffer s1 = [g0, g1, g2, g3]"
    by (auto simp: length_Suc_conv eval_nat_numeral)
  from st(2) f1 b1 have s2: "file' s2 = \<lparr>pending = [], good = False\<rparr>" "buffer s2 = [c0, c1, c2, c3]"
      "subchunk_1_id (wave_file s2) = v" "audio_format (wave_file s2) = ucast v" 
      "num_channels (wave_file s2) = ucast v" "sample_rate (wave_file s2) = v"
      "byte_rate (wave_file s2) = v" "block_align (wave_file s2) = ucast v" 
      "bits_per_sample (wave_file s2) = ucast v" 
    unfolding v_def
    by (auto simp: read_fmt_subchunk_def read_buffer_def istream_read_def store_def
          assign_int_def assign_short_def convert_to_int_2 convert_to_int_4 Let_def
          low_half ucast_word_of_int_16
          simp del: le_unsigned.simps)
  from st(3) s2(1,2) have s3: "file' s3 = \<lparr>pending = [], good = False\<rparr>"
      "buffer s3 = [c0, c1, c2, c3]" "wave_file s3 = wave_file s2"
    by (auto simp: read_buffer_def istream_read_def store_def)
  from st(4) s3(1,2) have s4: "\<not> good (file' s4)" "buffer s4 = [c0, c1, c2, c3]"
      "subchunk_2_id (wave_file s4) = v"
    unfolding v_def
    by (auto simp: read_subchunk_2_id_def read_buffer_def istream_read_def store_def
          skip_extra_data_def assign_int_def convert_to_int_4 Let_def
          simp del: le_unsigned.simps split: if_splits sum.splits)
  from st(5) s4(1,2) have s5: "subchunk_2_size (wave_file s5) = v"
    unfolding v_def
    by (auto simp: read_payload_cases istream_read_def store_def Let_def
          simp del: le_unsigned.simps split: if_splits)
  from s2(3-9) s3(3) s4(3) s5 after_lookahead_keeps [OF st(4,5)] show ?thesis
    by (simp add: w)
qed

text \<open>The frame before line 168, where the payload begins.\<close>

lemma before_payload:
  assumes "exec [read_riff_header h, read_fmt_subchunk h, read_buffer 4, read_subchunk_2_id h]
             (entry h f) = Inr s"
  shows "length (buffer s) = 4"
    and "LoadeWaveFile h f =
           (case read_payload h s of Inl (e, out) \<Rightarrow> (Inl e, out)
            | Inr s' \<Rightarrow> (Inr (wave_file s'), console s'))"
proof -
  have "carried (entry h f) s"
    using assms
    by (rule exec_carried)
       (auto intro: read_riff_header_carried read_fmt_subchunk_carried read_buffer_4_carried
             read_subchunk_2_id_carried)
  then show "length (buffer s) = 4" using entry_length by (rule carried_length)
  have "LoadeWaveFile h f =
          (case exec ([read_riff_header h, read_fmt_subchunk h, read_buffer 4,
                       read_subchunk_2_id h] @ [read_payload h]) (entry h f) of
             Inl (e, out) \<Rightarrow> (Inl e, out) | Inr s' \<Rightarrow> (Inr (wave_file s'), console s'))"
    by (simp add: LoadeWaveFile_def)
  also have "\<dots> = (case read_payload h s of Inl (e, out) \<Rightarrow> (Inl e, out)
                    | Inr s' \<Rightarrow> (Inr (wave_file s'), console s'))"
    using assms by (simp only: exec_append) (simp split: sum.splits)
  finally show "LoadeWaveFile h f =
           (case read_payload h s of Inl (e, out) \<Rightarrow> (Inl e, out)
            | Inr s' \<Rightarrow> (Inr (wave_file s'), console s'))" .
qed

lemma exhausted_unreported:
  assumes "exec [read_riff_header h, read_fmt_subchunk h, read_buffer 4, read_subchunk_2_id h]
             (entry h f) = Inr s"
    and "\<not> (good (file' s) \<and> 4 \<le> length (pending (file' s)))"
  shows "fst (LoadeWaveFile h f) = Inl bad_array_new_length \<or>
         fst (LoadeWaveFile h f) = Inl bad_alloc \<or>
         (\<exists>w. fst (LoadeWaveFile h f) = Inr w \<and> 0 \<le> sint (subchunk_2_size w) \<and>
              data w = replicate (nat (sint (subchunk_2_size w))) None)"
proof -
  note l = before_payload(1) [OF assms(1)] and run = before_payload(2) [OF assms(1)]
  from assms(2) have "\<not> good (fst (istream_read (file' s) 4))"
    by (simp add: istream_read_good)
  then have "snd (istream_read (fst (istream_read (file' s) 4)) n) = []" for n
    by (simp add: istream_read_not_good)
  then show ?thesis
    by (simp add: run read_payload_cases [OF l] Let_def)
qed

text \<open>
  C5, as stated, fails: the 16 bytes of a file cut off right after the "fmt " tag are
  parsed into a record. The reads after the tag extract nothing and leave "fmt " in
  the buffer, from which every later field is decoded: 28006 is the number of the
  bytes "fm", 544501094 that of "fmt ".
\<close>

theorem cut_after_fmt_returns_record:
  "fst (LoadeWaveFile le_host (Some cut_after_fmt)) =
     Inr \<lparr>chunk_id = 1179011410, chunk_size = 40, format = 1163280727,
          subchunk_1_id = 544501094, subchunk_1_size = 0, audio_format = 28006,
          num_channels = 28006, sample_rate = 544501094, byte_rate = 544501094,
          block_align = 28006, bits_per_sample = 28006, subchunk_2_id = 544501094,
          subchunk_2_size = 544501094, data = replicate 544501094 None\<rparr>"
  by (simp add: run_cut_after_fmt)

text \<open>
  C5, amended. Let \<open>s\<close> be the frame before line 168, which reads the last of the
  fixed-width fields. When the stream is exhausted before that field is fully read,
  that is, when the stream of \<open>s\<close> is not good or holds fewer than four bytes, the parser
  reports no truncation: it returns a record whose payload buffer is wholly
  uninitialised, unless one of the two exceptions of \<^verbatim>\<open>new char[n]\<close> leaves it
  first. So it is for every stream of fewer than 40 bytes, the least that the
  fixed-width fields take. The fields whose read extracted nothing are decoded from
  the bytes that earlier reads left in the buffer: when the stream ends right after
  the fourth tag, a record that is returned holds the number of that tag in
  \<open>sample_rate\<close>, \<open>byte_rate\<close>, \<open>subchunk_2_id\<close> and \<open>subchunk_2_size\<close>, and its low
  16 bits in the four 16-bit fields.
\<close>

theorem truncation_not_reported:
  "(exec [read_riff_header h, read_fmt_subchunk h, read_buffer 4, read_subchunk_2_id h]
      (entry h f) = Inr s \<and>
    \<not> (good (file' s) \<and> 4 \<le> length (pending (file' s))) \<longrightarrow>
      fst (LoadeWaveFile h f) = Inl bad_array_new_length \<or>
      fst (LoadeWaveFile h f) = Inl bad_alloc \<or>
      (\<exists>w. fst (LoadeWaveFile h f) = Inr w \<and>
           0 \<le> sint (subchunk_2_size w) \<and>
           data w = replicate (nat (sint (subchunk_2_size w))) None)) \<and>
   (length bytes < 40 \<longrightarrow>
      fst (LoadeWaveFile h (Some bytes)) = Inl bad_array_new_length \<or>
      fst (LoadeWaveFile h (Some bytes)) = Inl bad_alloc \<or>
      (\<exists>w. fst (LoadeWaveFile h (Some bytes)) = Inr w \<and>
           0 \<le> sint (subchunk_2_size w) \<and>
           data w = replicate (nat (sint (subchunk_2_size w))) None)) \<and>
   (length p = 12 \<and> fst (LoadeWaveFile h (Some (p @ [c0, c1, c2, c3]))) = Inr w' \<longrightarrow>
      subchunk_1_id w' = word_of_int (le_unsigned [c0, c1, c2, c3]) \<and>
      audio_format w' = ucast (subchunk_1_id w') \<and>
      num_channels w' = ucast (subchunk_1_id w') \<and>
      sample_rate w' = subchunk_1_id w' \<and>
      byte_rate w' = subchunk_1_id w' \<and>
      block_align w' = ucast (subchunk_1_id w') \<and>
      bits_per_sample w' = ucast (subchunk_1_id w') \<and>
      subchunk_2_id w' = subchunk_1_id w' \<and>
      subchunk_2_size w' = subchunk_1_id w')"
  using exhausted_unreported [of h f s] short_stream_unreported [of bytes h]
    stale_after_fmt [of p h c0 c1 c2 c3 w']
  by (simp del: le_unsigned.simps)

theorem truncation_not_reported_witness:
  "exec [read_riff_header le_host, read_fmt_subchunk le_host, read_buffer 4,
         read_subchunk_2_id le_host] (entry le_host (Some cut_after_fmt)) =
     Inr \<lparr>file' = \<lparr>pending = [], good = False\<rparr>, buffer = [102, 109, 116, 32],
          wave_file =
            \<lparr>chunk_id = 1179011410, chunk_size = 40, format = 1163280727,
             subchunk_1_id = 544501094, subchunk_1_size = 0, audio_format = 28006,
             num_channels = 28006, sample_rate = 544501094, byte_rate = 544501094,
             block_align = 28006, bits_per_sample = 28006, subchunk_2_id = 544501094,
             subchunk_2_size = 0, data = []\<rparr>,
          console = []\<rparr> \<and>
   length cut_after_fmt < 40 \<and> length (take 12 cut_after_fmt) = 12 \<and>
   cut_after_fmt = take 12 cut_after_fmt @ [102, 109, 116, 32] \<and>
   (\<exists>w. fst (LoadeWaveFile le_host (Some cut_after_fmt)) = Inr w \<and>
        data w = replicate 544501094 None \<and>
        subchunk_1_id w = 544501094 \<and> audio_format w = 28006 \<and>
        sample_rate w = 544501094 \<and> subchunk_2_size w = 544501094)"
  using truncation_not_reported [of le_host "Some cut_after_fmt"
    "\<lparr>file' = \<lparr>pending = [], good = False\<rparr>, buffer = [102, 109, 116, 32],
          wave_file =
            \<lparr>chunk_id = 1179011410, chunk_size = 40, format = 1163280727,
             subchunk_1_id = 544501094, subchunk_1_size = 0, audio_format = 28006,
             num_channels = 28006, sample_rate = 544501094, byte_rate = 544501094,
             block_align = 28006, bits_per_sample = 28006, subchunk_2_id = 544501094,
             subchunk_2_size = 0, data = []\<rparr>,
          console = []\<rparr>"
    cut_after_fmt "take 12 cut_after_fmt" 102 109 116 32
    "\<lparr>chunk_id = 1179011410, chunk_size = 40, format = 1163280727,
          subchunk_1_id = 544501094, subchunk_1_size = 0, audio_format = 28006,
          num_channels = 28006, sample_rate = 544501094, byte_rate = 544501094,
          block_align = 28006, bits_per_sample = 28006, subchunk_2_id = 544501094,
          subchunk_2_size = 544501094, data = replicate 544501094 None\<rparr>"]
  by (simp add: run_cut_after_fmt)
     (simp add: run cut_after_fmt_def)

subsection \<open>The warning\<close>

lemma read_subchunk_2_id_fault_console:
  assumes "length (buffer s) = 4" and "read_subchunk_2_id h s = Inl (e, out)"
  shows "out = console s"
proof (cases "strncmp (buffer s) (c_str ''data'') 4 \<noteq> 0")
  case True
  with assms have "exec [read_buffer 4, skip_extra_data h, read_buffer 4,
                         assign_int h (\<lambda>v w. w\<lparr>subchunk_2_id := v\<rparr>) 4] s = Inl (e, out)"
    by (simp add: read_subchunk_2_id_def)
  then have "\<exists>c \<in> set [read_buffer 4, skip_extra_data h, read_buffer 4,
                         assign_int h (\<lambda>v w. w\<lparr>subchunk_2_id := v\<rparr>) 4].
               \<exists>t. (length (buffer t) = 4 \<and> console t = console s) \<and> c t = Inl (e, out)"
  proof (rule exec_Inl_origin)
    show "length (buffer s) = 4 \<and> console s = console s" using assms(1) by simp
  next
    fix c t t'
    assume "c \<in> set [read_buffer 4, skip_extra_data h, read_buffer 4,
                      assign_int h (\<lambda>v w. w\<lparr>subchunk_2_id := v\<rparr>) 4]"
      and "length (buffer t) = 4 \<and> console t = console s" and "c t = Inr t'"
    then show "length (buffer t') = 4 \<and> console t' = console s"
      using istream_read_length [of "file' t" 4]
      by (auto simp: read_buffer_eq length_store skip_extra_data_cases assign_int_eq Let_def
            split: if_splits)
  qed
  then show ?thesis
    by (auto simp: read_buffer_eq assign_int_eq skip_extra_data_cases Let_def split: if_splits)
next
  case False
  with assms show ?thesis
    by (simp add: read_subchunk_2_id_def assign_int_eq)
qed

lemma LoadeWaveFile_console:
  assumes "read_riff_header h (entry h f) = Inr s1"
  shows "snd (LoadeWaveFile h f) = console s1"
proof -
  let ?s0 = "entry h f"
  have l1: "length (buffer s1) = 4"
    using read_riff_header_carried [OF assms] entry_length by (rule carried_length)
  obtain s2 where s2: "read_fmt_subchunk h s1 = Inr s2"
    using read_fmt_subchunk_no_fault [OF l1, of h] by (cases "read_fmt_subchunk h s1") auto
  have l2: "length (buffer s2) = 4"
    using read_fmt_subchunk_carried [OF s2] l1 by (rule carried_length)
  have k2: "console s2 = console s1"
    using read_fmt_subchunk_writes [OF s2] by simp
  obtain s3 where s3: "read_buffer 4 s2 = Inr s3"
    by (simp add: read_buffer_eq)
  have l3: "length (buffer s3) = 4"
    using read_buffer_4_carried [OF s3] l2 by (rule carried_length)
  have k3: "console s3 = console s1"
    using s3 k2 by (auto simp: read_buffer_eq)
  show ?thesis
  proof (cases "read_subchunk_2_id h s3")
    case (Inl x)
    obtain e out where x: "x = (e, out)" by (cases x)
    with Inl l3 have "out = console s3" by (simp add: read_subchunk_2_id_fault_console)
    with Inl x assms s2 s3 k3 show ?thesis by (simp add: LoadeWaveFile_def)
  next
    case s4: (Inr s4)
    have l4: "length (buffer s4) = 4"
      using read_subchunk_2_id_carried [OF s4] l3 by (rule carried_length)
    have k4: "console s4 = console s1"
      using read_subchunk_2_id_writes [OF s4] k3 by simp
    show ?thesis
    proof (cases "read_payload h s4")
      case (Inl x)
      obtain e out where x: "x = (e, out)" by (cases x)
      with Inl l4 have "out = console s4"
        by (auto simp: read_payload_cases Let_def split: if_splits)
      with Inl x assms s2 s3 s4 k4 show ?thesis by (simp add: LoadeWaveFile_def)
    next
      case (Inr s5)
      with read_payload_writes [of h s4 s5] have "console s5 = console s4" by simp
      with Inr assms s2 s3 s4 k4 show ?thesis by (simp add: LoadeWaveFile_def)
    qed
  qed
qed

lemma riff_header_of_mismatch:
  assumes "[b0, b1, b2, b3] \<noteq> c_str ''RIFF''"
  obtains s1 where "read_riff_header h (entry h (Some (b0 # b1 # b2 # b3 # rest))) = Inr s1"
    and "console s1 = ''This is not valid WAV file!''"
    and "chunk_id (wave_file s1) = word_of_int (le_unsigned [b0, b1, b2, b3])"
proof -
  let ?s0 = "entry h (Some (b0 # b1 # b2 # b3 # rest))"
  let ?P = "\<lambda>t. console t = ''This is not valid WAV file!'' \<and>
                 chunk_id (wave_file t) = word_of_int (le_unsigned [b0, b1, b2, b3])"
  obtain s1 where s1: "read_riff_header h ?s0 = Inr s1"
    using read_riff_header_no_fault [OF entry_length, of h]
    by (cases "read_riff_header h ?s0") auto
  have "read_riff_header h =
          exec ([read_buffer 4, check_riff, assign_int h (\<lambda>v w. w\<lparr>chunk_id := v\<rparr>) 4] @
                [read_buffer 4, assign_int h (\<lambda>v w. w\<lparr>chunk_size := v\<rparr>) 4,
                 read_buffer 4, assign_int h (\<lambda>v w. w\<lparr>format := v\<rparr>) 4])"
    by (simp add: read_riff_header_def)
  with s1 obtain t where
    t: "exec [read_buffer 4, check_riff, assign_int h (\<lambda>v w. w\<lparr>chunk_id := v\<rparr>) 4] ?s0 = Inr t"
    and r: "exec [read_buffer 4, assign_int h (\<lambda>v w. w\<lparr>chunk_size := v\<rparr>) 4,
                  read_buffer 4, assign_int h (\<lambda>v w. w\<lparr>format := v\<rparr>) 4] t = Inr s1"
    by (auto simp only: exec_append split: sum.splits)
  from assms have "strncmp [b0, b1, b2, b3] (c_str ''RIFF'') 4 \<noteq> 0"
    by (simp add: c_str_def strncmp_4)
  with t have "?P t"
    by (auto simp: entry_def ifstream_open_def read_buffer_def istream_read_def store_def
          check_riff_def assign_int_def convert_to_int_4 split_def Let_def
          simp del: le_unsigned.simps)
  with r have "?P s1"
    by (rule exec_Inr_induct)
       (auto simp: read_buffer_eq assign_int_def split: option.splits)
  with s1 that show ?thesis by blast
qed

text \<open>
  C4, as stated, fails: a stream that begins with "RIFX" is parsed into a record, as
  the same stream with "RIFF" would be, after a warning on the standard output.
\<close>

theorem rifx_accepted:
  "LoadeWaveFile le_host (Some rifx_file) =
     (Inr \<lparr>chunk_id = 1481001298, chunk_size = 40, format = 1163280727,
           subchunk_1_id = 544501094, subchunk_1_size = 0, audio_format = 1,
           num_channels = 1, sample_rate = 8000, byte_rate = 8000, block_align = 1,
           bits_per_sample = 8, subchunk_2_id = 1635017060, subchunk_2_size = 4,
           data = [Some 1, Some 2, Some 3, Some 4]\<rparr>,
      ''This is not valid WAV file!'')"
  by (rule run_rifx_file)

text \<open>
  C4, amended. When the first four bytes of the stream are not "RIFF", the parser
  prints the warning and goes on: it raises no format error. What it prints is the
  warning and nothing else; it returns a record whose \<open>chunk_id\<close> is decoded from
  those four bytes, unless one of the two exceptions of \<^verbatim>\<open>new char[n]\<close> leaves it.
\<close>

theorem riff_mismatch_only_warns:
  assumes "[b0, b1, b2, b3] \<noteq> c_str ''RIFF''"
  shows "snd (LoadeWaveFile h (Some (b0 # b1 # b2 # b3 # rest))) = ''This is not valid WAV file!'' \<and>
         (fst (LoadeWaveFile h (Some (b0 # b1 # b2 # b3 # rest))) = Inl bad_array_new_length \<or>
          fst (LoadeWaveFile h (Some (b0 # b1 # b2 # b3 # rest))) = Inl bad_alloc \<or>
          (\<exists>w. fst (LoadeWaveFile h (Some (b0 # b1 # b2 # b3 # rest))) = Inr w \<and>
               chunk_id w = word_of_int (le_unsigned [b0, b1, b2, b3])))"
proof -
  let ?f = "Some (b0 # b1 # b2 # b3 # rest)"
  from assms obtain s1 where s1: "read_riff_header h (entry h ?f) = Inr s1"
    and k1: "console s1 = ''This is not valid WAV file!''"
    and v1: "chunk_id (wave_file s1) = word_of_int (le_unsigned [b0, b1, b2, b3])"
    by (rule riff_header_of_mismatch)
  have out: "snd (LoadeWaveFile h ?f) = ''This is not valid WAV file!''"
    using LoadeWaveFile_console [OF s1] k1 by simp
  show ?thesis
  proof (cases "fst (LoadeWaveFile h ?f)")
    case (Inl e)
    with out show ?thesis using LoadeWaveFile_Inl [of h ?f e] by auto
  next
    case (Inr w)
    then obtain t1 s2 s3 s4 s5 where st: "read_riff_header h (entry h ?f) = Inr t1"
      "read_fmt_subchunk h t1 = Inr s2" "read_buffer 4 s2 = Inr s3"
      "read_subchunk_2_id h s3 = Inr s4" "read_payload h s4 = Inr s5" and w: "w = wave_file s5"
      by (rule LoadeWaveFile_Inr)
    from st(1) s1 have [simp]: "t1 = s1" by simp
    have "chunk_id (wave_file s2) = chunk_id (wave_file s1)"
      using arg_cong [OF conjunct1 [OF read_fmt_subchunk_writes [OF st(2)]], of chunk_id]
      by simp
    moreover have "wave_file s3 = wave_file s2"
      using st(3) by (auto simp: read_buffer_eq)
    moreover note after_lookahead_keeps(1) [OF st(4,5)]
    ultimately have "chunk_id w = word_of_int (le_unsigned [b0, b1, b2, b3])"
      using v1 by (simp add: w)
    with Inr out show ?thesis by simp
  qed
qed

theorem riff_mismatch_only_warns_witness:
  "[82, 73, 70, 88] \<noteq> c_str ''RIFF'' \<and>
   rifx_file = 82 # 73 # 70 # 88 # drop 4 rifx_file \<and>
   snd (LoadeWaveFile le_host (Some rifx_file)) = ''This is not valid WAV file!'' \<and>
   (\<exists>w. fst (LoadeWaveFile le_host (Some rifx_file)) = Inr w \<and>
        chunk_id w = word_of_int (le_unsigned [82, 73, 70, 88]))"
  using riff_mismatch_only_warns [of 82 73 70 88 le_host "drop 4 rifx_file"]
  by (simp add: run_rifx_file) 
     (simp add: rifx_file_def fixed_32_def c_str_def le_bytes_16_def le_bytes_32_def)

subsection \<open>The four bytes read ahead\<close>

lemma takes_to_fmt: "takes (exec [read_riff_header h, read_fmt_subchunk h]) 32"
proof -
  have "list_all2 takes [read_riff_header h, read_fmt_subchunk h] [12, 20]"
    by (simp add: takes_read_riff_header takes_read_fmt_subchunk)
  then have "takes (exec [read_riff_header h, read_fmt_subchunk h]) (sum_list [12, 20])"
    by (rule takes_exec)
  then show ?thesis by simp
qed

lemma lookahead_read:
  assumes "length hdr = 32" and "length tag = 4"
  obtains s3 where
    "exec [read_riff_header h, read_fmt_subchunk h, read_buffer 4]
       (entry h (Some (hdr @ tag @ rest))) = Inr s3"
    and "buffer s3 = tag" and "file' s3 = \<lparr>pending = rest, good = True\<rparr>"
proof -
  let ?s0 = "entry h (Some (hdr @ tag @ rest))"
  obtain s1 where s1: "read_riff_header h ?s0 = Inr s1"
    using read_riff_header_no_fault [OF entry_length, of h]
    by (cases "read_riff_header h ?s0") auto
  have l1: "length (buffer s1) = 4"
    using read_riff_header_carried [OF s1] entry_length by (rule carried_length)
  obtain s2 where s2: "read_fmt_subchunk h s1 = Inr s2"
    using read_fmt_subchunk_no_fault [OF l1, of h] by (cases "read_fmt_subchunk h s1") auto
  have l2: "length (buffer s2) = 4"
    using read_fmt_subchunk_carried [OF s2] l1 by (rule carried_length)
  from s1 s2 have "exec [read_riff_header h, read_fmt_subchunk h] ?s0 = Inr s2" by simp
  with takes_to_fmt [of h] assms(1)
  have g2: "good (file' s2)" "pending (file' s2) = tag @ rest"
    by (simp_all add: takes_def entry_simps)
  let ?s3 = "s2\<lparr>file' := \<lparr>pending = rest, good = True\<rparr>, buffer := tag\<rparr>"
  have "read_buffer 4 s2 = Inr ?s3"
    using g2 l2 assms(2) by (simp add: read_buffer_def istream_read_def store_def)
  with s1 s2 have "exec [read_riff_header h, read_fmt_subchunk h, read_buffer 4] ?s0 = Inr ?s3"
    by simp
  moreover have "buffer ?s3 = tag" "file' ?s3 = \<lparr>pending = rest, good = True\<rparr>"
    by simp_all
  ultimately show ?thesis by (rule that)
qed












subsection \<open>A payload shorter than its length\<close>

lemma short_payload_any:
  assumes "exec [read_riff_header h, read_fmt_subchunk h, read_buffer 4, read_subchunk_2_id h]
             (entry h f) = Inr s"
    and "file' s = \<lparr>pending = sz @ payload, good = True\<rparr>" and "length sz = 4"
    and "length payload < nat (sint (word_of_int (le_unsigned sz) :: c_int))"
  shows "(can_alloc h (nat (sint (word_of_int (le_unsigned sz) :: c_int))) \<longrightarrow>
           (\<exists>w. fst (LoadeWaveFile h f) = Inr w \<and>
                subchunk_2_size w = word_of_int (le_unsigned sz) \<and>
                data w = map Some payload @
                  replicate (nat (sint (subchunk_2_size w)) - length payload) None)) \<and>
         (\<not> can_alloc h (nat (sint (word_of_int (le_unsigned sz) :: c_int))) \<longrightarrow>
           fst (LoadeWaveFile h f) = Inl bad_alloc)"
proof -
  note l = before_payload(1) [OF assms(1)] and run = before_payload(2) [OF assms(1)]
  from assms(4) have pos: "\<not> sint (word_of_int (le_unsigned sz) :: c_int) < 0" by simp
  show ?thesis
    using assms(2-4) l pos
    by (simp add: run read_payload_cases [OF l] istream_read_def store_def Let_def
          del: le_unsigned.simps)
qed

lemma short_payload_plain:
  assumes "length hdr = 32" and "length sz = 4"
    and "length payload < nat (sint (word_of_int (le_unsigned sz) :: c_int))"
  shows "(can_alloc h (nat (sint (word_of_int (le_unsigned sz) :: c_int))) \<longrightarrow>
           (\<exists>w. fst (LoadeWaveFile h (Some (hdr @ c_str ''data'' @ sz @ payload))) = Inr w \<and>
                subchunk_2_size w = word_of_int (le_unsigned sz) \<and>
                data w = map Some payload @
                  replicate (nat (sint (subchunk_2_size w)) - length payload) None)) \<and>
         (\<not> can_alloc h (nat (sint (word_of_int (le_unsigned sz) :: c_int))) \<longrightarrow>
           fst (LoadeWaveFile h (Some (hdr @ c_str ''data'' @ sz @ payload))) = Inl bad_alloc)"
proof -
  let ?cs = "[read_riff_header h, read_fmt_subchunk h, read_buffer 4]"
  let ?f = "Some (hdr @ c_str ''data'' @ sz @ payload)"
  let ?v = "word_of_int (le_unsigned sz) :: c_int"
  have "length (c_str ''data'') = 4" by (simp add: c_str_def)
  with assms(1) obtain s3 where s3: "exec ?cs (entry h ?f) = Inr s3"
    and b3: "buffer s3 = c_str ''data''"
    and f3: "file' s3 = \<lparr>pending = sz @ payload, good = True\<rparr>"
    by (rule lookahead_read)
  let ?s4 = "s3\<lparr>wave_file := (wave_file s3)\<lparr>subchunk_2_id := word_of_int (le_unsigned (c_str ''data''))\<rparr>\<rparr>"
  have s4: "read_subchunk_2_id h s3 = Inr ?s4"
    using b3 by (simp add: read_subchunk_2_id_def strncmp_4 assign_int_eq c_str_def
                      del: le_unsigned.simps)
  have l4: "length (buffer ?s4) = 4" using b3 by (simp add: c_str_def)
  have "LoadeWaveFile h ?f =
          (case exec (?cs @ [read_subchunk_2_id h, read_payload h]) (entry h ?f) of
             Inl (e, out) \<Rightarrow> (Inl e, out) | Inr s \<Rightarrow> (Inr (wave_file s), console s))"
    by (simp add: LoadeWaveFile_def)
  also have "\<dots> = (case read_payload h ?s4 of
             Inl (e, out) \<Rightarrow> (Inl e, out) | Inr s \<Rightarrow> (Inr (wave_file s), console s))"
    using s3 s4 by (simp only: exec_append) (simp split: sum.splits)
  finally have run: "LoadeWaveFile h ?f = (case read_payload h ?s4 of
             Inl (e, out) \<Rightarrow> (Inl e, out) | Inr s \<Rightarrow> (Inr (wave_file s), console s))" .
  from assms(3) have pos: "0 \<le> sint ?v" "\<not> sint ?v < 0" by simp_all
  show ?thesis
    using assms(2,3) f3 pos
    by (simp add: run read_payload_cases [OF l4] istream_read_def store_def Let_def
          del: le_unsigned.simps)
qed

text \<open>
  C6, as stated, fails: of a stream that announces a payload of 8 bytes and holds
  3, the parser returns a record, with 8 cells of payload, 5 of them uninitialised.
\<close>

theorem short_payload_returns_record:
  "fst (LoadeWaveFile le_host (Some short_payload)) =
     Inr \<lparr>chunk_id = 1179011410, chunk_size = 40, format = 1163280727,
          subchunk_1_id = 544501094, subchunk_1_size = 0, audio_format = 1,
          num_channels = 1, sample_rate = 8000, byte_rate = 8000, block_align = 1,
          bits_per_sample = 8, subchunk_2_id = 1635017060, subchunk_2_size = 8,
          data = [Some 1, Some 2, Some 3] @ replicate 5 None\<rparr>"
  by (simp add: run_short_payload)

text \<open>
  C6, amended. Let \<open>s\<close> be the frame before line 168, with a good stream that holds
  the four bytes of a length and then fewer bytes than the length says. The parser
  does not report the truncation: it returns a record whose \<open>subchunk_2_size\<close> is that
  length and whose payload buffer has that many cells, the bytes that were left and
  then uninitialised cells. Only when the buffer cannot be allocated is the function
  left by an exception. So it is for every stream made of the 32 bytes of fixed
  fields, "data", a length and fewer bytes than the length says.
\<close>

theorem short_payload_left_unpopulated:
  "(exec [read_riff_header h, read_fmt_subchunk h, read_buffer 4, read_subchunk_2_id h]
      (entry h f) = Inr s \<and>
    file' s = \<lparr>pending = sz @ payload, good = True\<rparr> \<and> length sz = 4 \<and>
    length payload < nat (sint (word_of_int (le_unsigned sz) :: c_int)) \<longrightarrow>
      (can_alloc h (nat (sint (word_of_int (le_unsigned sz) :: c_int))) \<longrightarrow>
         (\<exists>w. fst (LoadeWaveFile h f) = Inr w \<and>
              subchunk_2_size w = word_of_int (le_unsigned sz) \<and>
              data w = map Some payload @
                replicate (nat (sint (subchunk_2_size w)) - length payload) None)) \<and>
      (\<not> can_alloc h (nat (sint (word_of_int (le_unsigned sz) :: c_int))) \<longrightarrow>
         fst (LoadeWaveFile h f) = Inl bad_alloc)) \<and>
   (length hdr = 32 \<and> length sz = 4 \<and>
    length payload < nat (sint (word_of_int (le_unsigned sz) :: c_int)) \<longrightarrow>
      (can_alloc h (nat (sint (word_of_int (le_unsigned sz) :: c_int))) \<longrightarrow>
         (\<exists>w. fst (LoadeWaveFile h (Some (hdr @ c_str ''data'' @ sz @ payload))) = Inr w \<and>
              subchunk_2_size w = word_of_int (le_unsigned sz) \<and>
              data w = map Some payload @
                replicate (nat (sint (subchunk_2_size w)) - length payload) None)) \<and>
      (\<not> can_alloc h (nat (sint (word_of_int (le_unsigned sz) :: c_int))) \<longrightarrow>
         fst (LoadeWaveFile h (Some (hdr @ c_str ''data'' @ sz @ payload))) = Inl bad_alloc))"
  using short_payload_any [of h f s sz payload] short_payload_plain [of hdr sz payload h]
  by (simp del: le_unsigned.simps)

theorem short_payload_left_unpopulated_witness:
  "exec [read_riff_header le_host, read_fmt_subchunk le_host, read_buffer 4,
         read_subchunk_2_id le_host] (entry le_host (Some short_payload)) =
     Inr \<lparr>file' = \<lparr>pending = le_bytes_32 8 @ [1, 2, 3], good = True\<rparr>,
          buffer = [100, 97, 116, 97],
          wave_file =
            \<lparr>chunk_id = 1179011410, chunk_size = 40, format = 1163280727,
             subchunk_1_id = 544501094, subchunk_1_size = 0, audio_format = 1,
             num_channels = 1, sample_rate = 8000, byte_rate = 8000, block_align = 1,
             bits_per_sample = 8, subchunk_2_id = 1635017060, subchunk_2_size = 0,
             data = []\<rparr>,
          console = []\<rparr> \<and>
   length (fixed_32 ''RIFF'') = 32 \<and> length (le_bytes_32 8) = 4 \<and>
   length [1, 2, 3 :: byte] < nat (sint (word_of_int (le_unsigned (le_bytes_32 8)) :: c_int)) \<and>
   short_payload = fixed_32 ''RIFF'' @ c_str ''data'' @ le_bytes_32 8 @ [1, 2, 3] \<and>
   (\<exists>w. fst (LoadeWaveFile le_host (Some short_payload)) = Inr w \<and> subchunk_2_size w = 8 \<and>
        data w = map Some [1, 2, 3] @ replicate (8 - length [1, 2, 3 :: byte]) None)"
  using short_payload_left_unpopulated [of le_host "Some short_payload"
    "\<lparr>file' = \<lparr>pending = le_bytes_32 8 @ [1, 2, 3], good = True\<rparr>,
          buffer = [100, 97, 116, 97],
          wave_file =
            \<lparr>chunk_id = 1179011410, chunk_size = 40, format = 1163280727,
             subchunk_1_id = 544501094, subchunk_1_size = 0, audio_format = 1,
             num_channels = 1, sample_rate = 8000, byte_rate = 8000, block_align = 1,
             bits_per_sample = 8, subchunk_2_id = 1635017060, subchunk_2_size = 0,
             data = []\<rparr>,
          console = []\<rparr>"
    "le_bytes_32 8" "[1, 2, 3]" "fixed_32 ''RIFF''"]
  by (simp add: run_short_payload)
     (simp add: run short_payload_def)

subsection \<open>What is left of the stream\<close>














end
